theory Spec2Isabelle
  imports Main "HOL-Library.AList" "HOL-Library.Multiset"
begin

section \<open>bun-fetch-mock: the mock registry and its dispatch\<close>

text \<open>
  The repository holds the module twice: \<^verbatim>\<open>src/index.ts\<close> and a second copy,
  \<^verbatim>\<open>src/unnamed/part_000\<close>, which adds \<^verbatim>\<open>joinBaseUrl\<close> and upper-cases
  the request method in \<^verbatim>\<open>fetchMock\<close>. Everything else in class \<^verbatim>\<open>FetchMock\<close>
  is the same text in both. The definitions below follow \<^verbatim>\<open>src/index.ts\<close>; the two
  functions that differ in \<^verbatim>\<open>part_000\<close> are embedded a second time with the suffix
  \<open>_part000\<close>. The platform's \<^verbatim>\<open>Response\<close> constructors, which \<^verbatim>\<open>fetchMock\<close> calls
  last and which can throw, are a parameter of the dispatch.
\<close>

subsection \<open>Values\<close>

text \<open>
  A JavaScript value, as far as the module inspects one: \<^verbatim>\<open>data\<close> is compared with
  \<^verbatim>\<open>undefined\<close> and tested with \<^verbatim>\<open>typeof data === "string"\<close>; the \<^verbatim>\<open>url\<close>
  argument of a registration is tested for truthiness and for being a string.
  Numbers are integers here; nothing in the module computes with them.
\<close>

datatype jsvalue =
    JUndefined
  | JNull
  | JBool bool
  | JNum int
  | JStr string
  | JArr "jsvalue list"
  | JObj "(string \<times> jsvalue) list"

text \<open>Truthiness of a value (\<^verbatim>\<open>!url\<close> is its negation).\<close>

fun truthy :: "jsvalue \<Rightarrow> bool" where
  "truthy JUndefined = False"
| "truthy JNull = False"
| "truthy (JBool b) = b"
| "truthy (JNum n) = (n \<noteq> 0)"
| "truthy (JStr s) = (s \<noteq> [])"
| "truthy (JArr xs) = True"
| "truthy (JObj kvs) = True"

fun isString :: "jsvalue \<Rightarrow> bool" where
  "isString (JStr s) = True"
| "isString v = False"

datatype HttpMethod = GET | POST | PUT | DELETE | PATCH | HEAD | OPTIONS

text \<open>The string a value of the union type \<^verbatim>\<open>HttpMethod\<close> is at run time.\<close>

fun methodName :: "HttpMethod \<Rightarrow> string" where
  "methodName GET = ''GET''"
| "methodName POST = ''POST''"
| "methodName PUT = ''PUT''"
| "methodName DELETE = ''DELETE''"
| "methodName PATCH = ''PATCH''"
| "methodName HEAD = ''HEAD''"
| "methodName OPTIONS = ''OPTIONS''"

definition DEFAULT_METHOD :: string where
  "DEFAULT_METHOD = ''GET''"

text \<open>
  \<^verbatim>\<open>MockOpts\<close>: every field is optional. \<^verbatim>\<open>data\<close> absent is \<open>JUndefined\<close>;
  a \<^verbatim>\<open>Record<string, string>\<close> of headers is a finite map.
\<close>

record MockOpts =
  data :: jsvalue
  status :: "int option"
  headers :: "(string \<rightharpoonup> string) option"
  statusText :: "string option"
  once :: "bool option"

text \<open>A stored entry: \<^verbatim>\<open>{ isUsed: boolean } & MockOpts<unknown>\<close>.\<close>

record Entry = MockOpts +
  isUsed :: bool

text \<open>
  \<^verbatim>\<open>RequestInit\<close>: only its field \<^verbatim>\<open>method\<close> is read (written \<open>method'\<close> here).
\<close>

record RequestInit =
  method' :: "string option"

text \<open>
  The platform's two ways to build a response are kept as constructors:
  \<^verbatim>\<open>new Response(body, init)\<close> with a text body or \<^verbatim>\<open>null\<close>, and
  \<^verbatim>\<open>Response.json(data, init)\<close>. A value of this type is the call with its
  arguments; what the platform makes of a call that returns (serialising, adding its
  own content type) is outside the module.
\<close>

record ResponseInit =
  resStatus :: int
  resHeaders :: "string \<rightharpoonup> string"
  resStatusText :: string

datatype Response =
    NewResponse "string option" ResponseInit
  | ResponseJson jsvalue ResponseInit

text \<open>
  Every error of the module is a plain \<^verbatim>\<open>Error\<close> with a message; the constructor
  records which \<^verbatim>\<open>throw\<close> produced it. \<open>VerificationFailure\<close> is the failed
  \<^verbatim>\<open>expect(...).toBe(true)\<close> of \<^verbatim>\<open>assertAllMocksUsed\<close>, \<open>TypeError\<close> a method
  call on a value that is not a string. \<open>PlatformError\<close> is whatever
  \<^verbatim>\<open>new Response(...)\<close> or \<^verbatim>\<open>Response.json(...)\<close> throws, with the name of the error.
\<close>

datatype error =
    ValidationError string
  | UnsupportedMethodError string
  | NoMockFoundError string
  | VerificationFailure string
  | TypeError string
  | PlatformError string

text \<open>
  The platform decides whether a call of one of its two constructors returns the
  response or throws: a platform is the function that gives, for a call, the name of
  the error thrown, or \<open>None\<close> when the response is built. The functions of the module
  take it as a parameter, and what is proved of them holds for every platform.
\<close>

type_synonym Platform = "Response \<Rightarrow> string option"

definition construct :: "Platform \<Rightarrow> Response \<Rightarrow> error + Response" where
  "construct platform r =
     (case platform r of Some name \<Rightarrow> Inl (PlatformError name) | None \<Rightarrow> Inr r)"

text \<open>
  One platform, for runs on concrete arguments: the constructors throw a
  \<^verbatim>\<open>RangeError\<close> for a status that is neither \<open>101\<close> nor from \<open>200\<close> to \<open>599\<close>, and build
  the response otherwise.
\<close>

definition statusInRange :: "int \<Rightarrow> bool" where
  "statusInRange s = (s = 101 \<or> (200 \<le> s \<and> s \<le> 599))"

fun rangeChecked :: Platform where
  "rangeChecked (NewResponse body ini) =
     (if statusInRange (resStatus ini) then None else Some ''RangeError'')"
| "rangeChecked (ResponseJson dat ini) =
     (if statusInRange (resStatus ini) then None else Some ''RangeError'')"

text \<open>
  The registry. A JavaScript \<^verbatim>\<open>Map\<close> iterates in insertion order, so each of the
  two maps is an association list: \<^verbatim>\<open>get\<close> is \<^const>\<open>map_of\<close>, \<^verbatim>\<open>set\<close> is
  \<^const>\<open>AList.update\<close> (an existing key keeps its place, a new key goes to the end),
  \<^verbatim>\<open>delete\<close> is \<^const>\<open>AList.delete\<close>, \<^verbatim>\<open>keys()\<close> is \<open>map fst\<close>.
\<close>

record FetchMock =
  baseUrl :: string
  mocks :: "(string \<times> Entry) list"
  mockQueue :: "(string \<times> Entry list) list"

subsection \<open>Strings\<close>

definition startsWith :: "string \<Rightarrow> string \<Rightarrow> bool" where
  "startsWith s p = (take (length p) s = p)"

definition endsWith :: "string \<Rightarrow> string \<Rightarrow> bool" where
  "endsWith s p = (length p \<le> length s \<and> drop (length s - length p) s = p)"

text \<open>\<^verbatim>\<open>Array.prototype.join\<close> on an array of strings.\<close>

fun join :: "string list \<Rightarrow> string \<Rightarrow> string" where
  "join [] sep = []"
| "join [x] sep = x"
| "join (x # y # ys) sep = x @ sep @ join (y # ys) sep"

text \<open>
  \<^verbatim>\<open>String.prototype.toUpperCase\<close>, on the ASCII letters. A \<^typ>\<open>char\<close> is a byte,
  so the mappings JavaScript has for letters outside ASCII are not modelled.
\<close>

definition toUpperChar :: "char \<Rightarrow> char" where
  "toUpperChar c =
     (let n = (of_char c :: nat)
      in if 97 \<le> n \<and> n \<le> 122 then char_of (n - 32) else c)"

definition toUpperCase :: "string \<Rightarrow> string" where
  "toUpperCase s = map toUpperChar s"

subsection \<open>The module's functions\<close>

definition getKey :: "string \<Rightarrow> string \<Rightarrow> string" where
  "getKey m url = ''['' @ m @ ''] '' @ url"

text \<open>\<^verbatim>\<open>joinBaseUrl\<close> exists in \<^verbatim>\<open>part_000\<close> only.\<close>

definition joinBaseUrl :: "string \<Rightarrow> string \<Rightarrow> string" where
  "joinBaseUrl base path =
     (if base = [] then path
      else
        let normalizedBaseUrl =
              (if endsWith base ''/'' then take (length base - 1) base else base)
        in normalizedBaseUrl @ path)"

text \<open>The constructor: \<^verbatim>\<open>this.baseUrl = opts.baseUrl ?? ""\<close>, both maps empty.\<close>

definition newFetchMock :: "string option \<Rightarrow> FetchMock" where
  "newFetchMock optsBaseUrl =
     \<lparr> baseUrl = (case optsBaseUrl of None \<Rightarrow> [] | Some b \<Rightarrow> b),
       mocks = [], mockQueue = [] \<rparr>"

text \<open>\<^verbatim>\<open>validateUrl\<close> returns the message of its \<^verbatim>\<open>ValidationError\<close>, or \<open>None\<close> for \<^verbatim>\<open>null\<close>.\<close>

definition validateUrl :: "jsvalue \<Rightarrow> string option" where
  "validateUrl url =
     (if \<not> truthy url \<or> \<not> isString url then Some ''URL must be a non-empty string''
      else
        (case url of
           JStr u \<Rightarrow>
             if \<not> startsWith u ''http://'' \<and> \<not> startsWith u ''https://'' \<and> \<not> startsWith u ''/''
             then Some ''URL must start with http://, https://, or /''
             else None
         | _ \<Rightarrow> None))"

definition validMethods :: "string list" where
  "validMethods = [''GET'', ''POST'', ''PUT'', ''DELETE'', ''PATCH'', ''HEAD'', ''OPTIONS'']"

definition validateMethod :: "string \<Rightarrow> bool" where
  "validateMethod m = (m \<in> set validMethods)"

definition reset :: "FetchMock \<Rightarrow> FetchMock" where
  "reset this = this\<lparr> mocks := [], mockQueue := [] \<rparr>"

text \<open>\<^verbatim>\<open>{ ...opts, isUsed: false }\<close>, with \<^verbatim>\<open>opts\<close> possibly \<^verbatim>\<open>undefined\<close>.\<close>

definition mockData :: "MockOpts option \<Rightarrow> Entry" where
  "mockData opts =
     (case opts of
        None \<Rightarrow>
          \<lparr> data = JUndefined, status = None, headers = None, statusText = None,
            once = None, isUsed = False \<rparr>
      | Some mo \<Rightarrow>
          \<lparr> data = data mo, status = status mo, headers = headers mo,
            statusText = statusText mo, once = once mo, isUsed = False \<rparr>)"

text \<open>
  \<^verbatim>\<open>#mockRequest\<close> of \<^verbatim>\<open>src/index.ts\<close>. The result pairs what the call returns
  (\<^verbatim>\<open>this\<close>, the registry itself) or throws with the registry afterwards. The seven
  public methods \<^verbatim>\<open>get\<close>, ..., \<^verbatim>\<open>options\<close> call it with their constant method.
  After \<^verbatim>\<open>validateUrl\<close> has accepted it the \<^verbatim>\<open>url\<close> is a string; on any other
  value \<^verbatim>\<open>url.startsWith\<close> would be a \<^verbatim>\<open>TypeError\<close>.
\<close>

definition mockRequest ::
  "FetchMock \<Rightarrow> HttpMethod \<Rightarrow> jsvalue \<Rightarrow> MockOpts option \<Rightarrow> (error + unit) \<times> FetchMock" where
  "mockRequest this m url opts =
     (case validateUrl url of
        Some message \<Rightarrow>
          (Inl (ValidationError (''Invalid URL for '' @ methodName m @ '' mock: '' @ message)), this)
      | None \<Rightarrow>
          (case url of
             JStr u \<Rightarrow>
               let fullUrl = (if startsWith u ''/'' then baseUrl this @ u else u);
                   key = getKey (methodName m) fullUrl;
                   md = mockData opts
               in
                 if map_of (mocks this) key \<noteq> None then
                   let queue = (case map_of (mockQueue this) key of Some q \<Rightarrow> q | None \<Rightarrow> []);
                       queue = queue @ [md]
                   in (Inr (), this\<lparr> mockQueue := AList.update key queue (mockQueue this) \<rparr>)
                 else (Inr (), this\<lparr> mocks := AList.update key md (mocks this) \<rparr>)
           | _ \<Rightarrow> (Inl (TypeError ''url.startsWith is not a function''), this)))"

text \<open>\<^verbatim>\<open>#mockRequest\<close> of \<^verbatim>\<open>part_000\<close>: a path goes through \<^verbatim>\<open>joinBaseUrl\<close>.\<close>

definition mockRequest_part000 ::
  "FetchMock \<Rightarrow> HttpMethod \<Rightarrow> jsvalue \<Rightarrow> MockOpts option \<Rightarrow> (error + unit) \<times> FetchMock" where
  "mockRequest_part000 this m url opts =
     (case validateUrl url of
        Some message \<Rightarrow>
          (Inl (ValidationError (''Invalid URL for '' @ methodName m @ '' mock: '' @ message)), this)
      | None \<Rightarrow>
          (case url of
             JStr u \<Rightarrow>
               let fullUrl = (if startsWith u ''/'' then joinBaseUrl (baseUrl this) u else u);
                   key = getKey (methodName m) fullUrl;
                   md = mockData opts
               in
                 if map_of (mocks this) key \<noteq> None then
                   let queue = (case map_of (mockQueue this) key of Some q \<Rightarrow> q | None \<Rightarrow> []);
                       queue = queue @ [md]
                   in (Inr (), this\<lparr> mockQueue := AList.update key queue (mockQueue this) \<rparr>)
                 else (Inr (), this\<lparr> mocks := AList.update key md (mocks this) \<rparr>)
           | _ \<Rightarrow> (Inl (TypeError ''url.startsWith is not a function''), this)))"

text \<open>
  The response of a matched entry, the last four statements of \<^verbatim>\<open>fetchMock\<close>
  (the same in both copies), with the defaults of the destructuring:
  status \<open>200\<close>, no headers, status text \<open>OK\<close>.
\<close>

definition respond :: "string \<Rightarrow> Entry \<Rightarrow> Response" where
  "respond m opts =
     (let dat = data opts;
          st = (case status opts of None \<Rightarrow> 200 | Some s \<Rightarrow> s);
          hs = (case headers opts of None \<Rightarrow> Map.empty | Some h \<Rightarrow> h);
          stText = (case statusText opts of None \<Rightarrow> ''OK'' | Some t \<Rightarrow> t)
      in
        if m = ''HEAD'' then
          NewResponse None \<lparr> resStatus = st, resHeaders = hs, resStatusText = stText \<rparr>
        else if dat = JUndefined then
          NewResponse None \<lparr> resStatus = st, resHeaders = hs, resStatusText = stText \<rparr>
        else
          (case dat of
             JStr text \<Rightarrow>
               NewResponse (Some text)
                 \<lparr> resStatus = st,
                   resHeaders = [''Content-Type'' \<mapsto> ''text/plain''] ++ hs,
                   resStatusText = stText \<rparr>
           | _ \<Rightarrow>
               ResponseJson dat \<lparr> resStatus = st, resHeaders = hs, resStatusText = stText \<rparr>))"

text \<open>
  The body of \<^verbatim>\<open>fetchMock\<close> from the resolved \<^verbatim>\<open>methodStr\<close> on. The entry found
  is an object held by the map, so \<^verbatim>\<open>opts.isUsed = true\<close> updates it in place;
  \<^verbatim>\<open>queue.shift()\<close> likewise changes the array the queue map holds. The response is
  constructed last, after the flag is set and the \<^verbatim>\<open>once\<close> entry is rotated out: when
  the constructor throws, the call throws with the registry already changed. The
  function is \<^verbatim>\<open>async\<close>: a \<^verbatim>\<open>throw\<close> is the rejection of the promise it returns.
\<close>

definition dispatch ::
  "Platform \<Rightarrow> FetchMock \<Rightarrow> string \<Rightarrow> string \<Rightarrow> (error + Response) \<times> FetchMock" where
  "dispatch platform this methodStr url =
     (if \<not> validateMethod methodStr then
        (Inl (UnsupportedMethodError
               (''Unsupported HTTP method: '' @ methodStr @
                ''. Supported methods: GET, POST, PUT, DELETE, PATCH, HEAD, OPTIONS'')), this)
      else
        let key = getKey methodStr url in
        (case map_of (mocks this) key of
           None \<Rightarrow>
             let allMocks = map fst (mocks this) @ map fst (mockQueue this);
                 availableMocks = join allMocks '', ''
             in (Inl (NoMockFoundError
                        (''No mock found for '' @ key @
                         (if availableMocks \<noteq> [] then ''. Available mocks: '' @ availableMocks
                          else []))), this)
         | Some opts \<Rightarrow>
             let this1 = this\<lparr> mocks := AList.update key (opts\<lparr> isUsed := True \<rparr>) (mocks this) \<rparr>;
                 this2 =
                   (if once opts = Some True then
                      let this3 = this1\<lparr> mocks := AList.delete key (mocks this1) \<rparr> in
                      (case map_of (mockQueue this3) key of
                         Some (nextMock # rest) \<Rightarrow>
                           let this4 = this3\<lparr> mocks := AList.update key nextMock (mocks this3) \<rparr> in
                           if rest = [] then
                             this4\<lparr> mockQueue := AList.delete key (mockQueue this4) \<rparr>
                           else
                             this4\<lparr> mockQueue := AList.update key rest (mockQueue this4) \<rparr>
                       | _ \<Rightarrow> this3)
                    else this1)
             in (construct platform (respond methodStr opts), this2)))"

text \<open>\<^verbatim>\<open>fetchMock\<close> of \<^verbatim>\<open>src/index.ts\<close>: \<^verbatim>\<open>init?.method ?? DEFAULT_METHOD\<close>.\<close>

definition fetchMock ::
  "Platform \<Rightarrow> FetchMock \<Rightarrow> string \<Rightarrow> RequestInit option \<Rightarrow> (error + Response) \<times> FetchMock" where
  "fetchMock platform this url init =
     (let methodStr =
            (case init of
               None \<Rightarrow> DEFAULT_METHOD
             | Some i \<Rightarrow> (case method' i of None \<Rightarrow> DEFAULT_METHOD | Some s \<Rightarrow> s))
      in dispatch platform this methodStr url)"

text \<open>
  \<^verbatim>\<open>fetchMock\<close> of \<^verbatim>\<open>part_000\<close>:
  \<^verbatim>\<open>(init?.method ?? DEFAULT_METHOD).toUpperCase()\<close>.
\<close>

definition fetchMock_part000 ::
  "Platform \<Rightarrow> FetchMock \<Rightarrow> string \<Rightarrow> RequestInit option \<Rightarrow> (error + Response) \<times> FetchMock" where
  "fetchMock_part000 platform this url init =
     (let methodStr =
            toUpperCase
              (case init of
                 None \<Rightarrow> DEFAULT_METHOD
               | Some i \<Rightarrow> (case method' i of None \<Rightarrow> DEFAULT_METHOD | Some s \<Rightarrow> s))
      in dispatch platform this methodStr url)"

text \<open>
  \<^verbatim>\<open>assertAllMocksUsed\<close>: the first loop walks the active entries, the second the
  queues; the first \<^verbatim>\<open>expect(opts.isUsed, ...).toBe(true)\<close> that fails throws.
\<close>

definition notUsed :: "string \<Rightarrow> error" where
  "notUsed key = VerificationFailure (''Fetch mock '' @ key @ '' was not used'')"

fun assertMocks :: "(string \<times> Entry) list \<Rightarrow> error option" where
  "assertMocks [] = None"
| "assertMocks ((key, opts) # rest) =
     (if isUsed opts then assertMocks rest else Some (notUsed key))"

fun assertQueue :: "string \<Rightarrow> Entry list \<Rightarrow> error option" where
  "assertQueue key [] = None"
| "assertQueue key (opts # queue) =
     (if isUsed opts then assertQueue key queue else Some (notUsed key))"

fun assertQueues :: "(string \<times> Entry list) list \<Rightarrow> error option" where
  "assertQueues [] = None"
| "assertQueues ((key, queue) # rest) =
     (case assertQueue key queue of Some e \<Rightarrow> Some e | None \<Rightarrow> assertQueues rest)"

definition assertAllMocksUsed :: "FetchMock \<Rightarrow> (error + unit) \<times> FetchMock" where
  "assertAllMocksUsed this =
     (case assertMocks (mocks this) of
        Some e \<Rightarrow> (Inl e, this)
      | None \<Rightarrow>
          (case assertQueues (mockQueue this) of
             Some e \<Rightarrow> (Inl e, this)
           | None \<Rightarrow> (Inr (), this)))"

subsection \<open>Both copies of the module, and runs of calls\<close>

datatype copy = IndexTs | Part000

definition mockRequestOf ::
  "copy \<Rightarrow> FetchMock \<Rightarrow> HttpMethod \<Rightarrow> jsvalue \<Rightarrow> MockOpts option \<Rightarrow> (error + unit) \<times> FetchMock" where
  "mockRequestOf c = (case c of IndexTs \<Rightarrow> mockRequest | Part000 \<Rightarrow> mockRequest_part000)"

definition fetchMockOf ::
  "copy \<Rightarrow> Platform \<Rightarrow> FetchMock \<Rightarrow> string \<Rightarrow> RequestInit option \<Rightarrow>
     (error + Response) \<times> FetchMock" where
  "fetchMockOf c = (case c of IndexTs \<Rightarrow> fetchMock | Part000 \<Rightarrow> fetchMock_part000)"

text \<open>The URL a registration of the string \<open>u\<close> is stored under, in each copy.\<close>

definition fullUrlOf :: "copy \<Rightarrow> FetchMock \<Rightarrow> string \<Rightarrow> string" where
  "fullUrlOf c this u =
     (if startsWith u ''/'' then
        (case c of IndexTs \<Rightarrow> baseUrl this @ u | Part000 \<Rightarrow> joinBaseUrl (baseUrl this) u)
      else u)"

text \<open>The method a call of \<^verbatim>\<open>fetchMock\<close> resolves, in each copy.\<close>

definition initMethod :: "RequestInit option \<Rightarrow> string" where
  "initMethod init =
     (case init of
        None \<Rightarrow> DEFAULT_METHOD
      | Some i \<Rightarrow> (case method' i of None \<Rightarrow> DEFAULT_METHOD | Some s \<Rightarrow> s))"

definition methodStrOf :: "copy \<Rightarrow> RequestInit option \<Rightarrow> string" where
  "methodStrOf c init =
     (case c of IndexTs \<Rightarrow> initMethod init | Part000 \<Rightarrow> toUpperCase (initMethod init))"

text \<open>
  The entries that wait under a key, in the order dispatch serves them: the active
  entry, then the key's queue.
\<close>

definition pending :: "FetchMock \<Rightarrow> string \<Rightarrow> Entry list" where
  "pending this key =
     (case map_of (mocks this) key of
        None \<Rightarrow> []
      | Some e \<Rightarrow> e # (case map_of (mockQueue this) key of None \<Rightarrow> [] | Some q \<Rightarrow> q))"

text \<open>Every entry \<^verbatim>\<open>assertAllMocksUsed\<close> visits.\<close>

definition allEntries :: "FetchMock \<Rightarrow> Entry list" where
  "allEntries this = map snd (mocks this) @ concat (map snd (mockQueue this))"

text \<open>Registrations one after the other; the first that throws ends the run.\<close>

fun registerAll ::
  "copy \<Rightarrow> FetchMock \<Rightarrow> HttpMethod \<Rightarrow> jsvalue \<Rightarrow> MockOpts option list \<Rightarrow> (error + unit) \<times> FetchMock" where
  "registerAll c this m url [] = (Inr (), this)"
| "registerAll c this m url (opts # rest) =
     (case mockRequestOf c this m url opts of
        (Inl e, this') \<Rightarrow> (Inl e, this')
      | (Inr u, this') \<Rightarrow> registerAll c this' m url rest)"

text \<open>
  \<open>n\<close> calls of \<^verbatim>\<open>fetch\<close> with the same arguments, each awaited before the next
  (a rejected call is caught by the caller, as the tests do with \<^verbatim>\<open>rejects.toThrow\<close>):
  the outcomes in order, and the registry at the end.
\<close>

fun fetchTimes ::
  "copy \<Rightarrow> Platform \<Rightarrow> FetchMock \<Rightarrow> string \<Rightarrow> RequestInit option \<Rightarrow> nat \<Rightarrow>
     (error + Response) list \<times> FetchMock" where
  "fetchTimes c platform this url init 0 = ([], this)"
| "fetchTimes c platform this url init (Suc n) =
     (case fetchMockOf c platform this url init of
        (r, this') \<Rightarrow>
          (case fetchTimes c platform this' url init n of (rs, this'') \<Rightarrow> (r # rs, this'')))"

subsection \<open>The registries a test can reach\<close>

text \<open>
  A registry is made by the constructor and changed only by the methods of the class
  (\<^verbatim>\<open>assertAllMocksUsed\<close> changes nothing), on whatever platform.
\<close>

inductive reachable :: "copy \<Rightarrow> FetchMock \<Rightarrow> bool" for c :: copy where
  reach_new: "reachable c (newFetchMock b)"
| reach_register: "reachable c this \<Longrightarrow> reachable c (snd (mockRequestOf c this m url opts))"
| reach_fetch: "reachable c this \<Longrightarrow> reachable c (snd (fetchMockOf c platform this url init))"
| reach_reset: "reachable c this \<Longrightarrow> reachable c (reset this)"

text \<open>What holds of every such registry.\<close>

definition queuesNonEmpty :: "FetchMock \<Rightarrow> bool" where
  "queuesNonEmpty this = list_all (\<lambda>(k, q). q \<noteq> []) (mockQueue this)"

definition queuedKeysActive :: "FetchMock \<Rightarrow> bool" where
  "queuedKeysActive this = list_all (\<lambda>(k, q). map_of (mocks this) k \<noteq> None) (mockQueue this)"

definition keysNonEmpty :: "FetchMock \<Rightarrow> bool" where
  "keysNonEmpty this = list_all (\<lambda>k. k \<noteq> []) (map fst (mocks this) @ map fst (mockQueue this))"

definition distinctKeys :: "FetchMock \<Rightarrow> bool" where
  "distinctKeys this = (distinct (map fst (mocks this)) \<and> distinct (map fst (mockQueue this)))"

definition usedArePersistent :: "FetchMock \<Rightarrow> bool" where
  "usedArePersistent this =
     (list_all (\<lambda>(k, e). \<not> (isUsed e \<and> once e = Some True)) (mocks this) \<and>
      list_all (\<lambda>(k, q). list_all (\<lambda>e. \<not> isUsed e) q) (mockQueue this))"

definition wellFormed :: "FetchMock \<Rightarrow> bool" where
  "wellFormed this =
     (distinctKeys this \<and> keysNonEmpty this \<and> queuesNonEmpty this \<and>
      queuedKeysActive this \<and> usedArePersistent this)"

subsection \<open>The effect of one call, by case\<close>

text \<open>
  Three shorthands for the registry after a call, used to state the lemmas: after an
  accepted registration under \<open>key\<close>; after a dispatch matched the entry \<open>e\<close> that
  stays; after a dispatch matched a \<^verbatim>\<open>once\<close> entry, which is deleted and replaced by
  the head of the key's queue.
\<close>

definition storeMock :: "FetchMock \<Rightarrow> string \<Rightarrow> Entry \<Rightarrow> FetchMock" where
  "storeMock this key md =
     (if map_of (mocks this) key \<noteq> None then
        this\<lparr> mockQueue :=
                AList.update key
                  ((case map_of (mockQueue this) key of Some q \<Rightarrow> q | None \<Rightarrow> []) @ [md])
                  (mockQueue this) \<rparr>
      else this\<lparr> mocks := AList.update key md (mocks this) \<rparr>)"

definition markUsed :: "FetchMock \<Rightarrow> string \<Rightarrow> Entry \<Rightarrow> FetchMock" where
  "markUsed this key e = this\<lparr> mocks := AList.update key (e\<lparr> isUsed := True \<rparr>) (mocks this) \<rparr>"

definition promoteNext :: "FetchMock \<Rightarrow> string \<Rightarrow> FetchMock" where
  "promoteNext this key =
     (case map_of (mockQueue this) key of
        Some (nextMock # rest) \<Rightarrow>
          this\<lparr> mocks := AList.update key nextMock (AList.delete key (mocks this)),
                mockQueue := (if rest = [] then AList.delete key (mockQueue this)
                              else AList.update key rest (mockQueue this)) \<rparr>
      | _ \<Rightarrow> this\<lparr> mocks := AList.delete key (mocks this) \<rparr>)"

section \<open>Lemmas\<close>

subsection \<open>What each call does\<close>

lemma getKey_nonempty: "getKey m u \<noteq> []"
  by (simp add: getKey_def)

lemma validateUrl_None_iff:
  "validateUrl url = None \<longleftrightarrow>
     (\<exists>u. url = JStr u \<and>
          (startsWith u ''http://'' \<or> startsWith u ''https://'' \<or> startsWith u ''/''))"
  by (cases url) (auto simp: validateUrl_def startsWith_def)

lemma mockRequestOf_valid:
  assumes "validateUrl (JStr u) = None"
  shows "mockRequestOf c this m (JStr u) opts =
           (Inr (), storeMock this (getKey (methodName m) (fullUrlOf c this u)) (mockData opts))"
  using assms
  by (cases c)
     (auto simp: mockRequestOf_def mockRequest_def mockRequest_part000_def storeMock_def
        fullUrlOf_def Let_def)

lemma mockRequestOf_invalid:
  assumes "validateUrl url = Some msg"
  shows "mockRequestOf c this m url opts =
           (Inl (ValidationError (''Invalid URL for '' @ methodName m @ '' mock: '' @ msg)), this)"
  using assms
  by (cases c) (simp_all add: mockRequestOf_def mockRequest_def mockRequest_part000_def)

lemma fetchMockOf_dispatch: "fetchMockOf c pf this url init = dispatch pf this (methodStrOf c init) url"
  by (cases c)
     (simp_all add: fetchMockOf_def fetchMock_def fetchMock_part000_def methodStrOf_def
        initMethod_def)

lemma construct_Inr: "construct pf r = Inr r' \<longleftrightarrow> pf r = None \<and> r' = r"
  by (auto simp: construct_def split: option.splits)

lemma construct_Inl:
  "construct pf r = Inl err \<longleftrightarrow> (\<exists>name. pf r = Some name \<and> err = PlatformError name)"
  by (auto simp: construct_def split: option.splits)

lemma construct_accepted: "pf r = None \<Longrightarrow> construct pf r = Inr r"
  by (simp add: construct_def)

lemma dispatch_unsupported:
  "\<not> validateMethod ms \<Longrightarrow>
   dispatch pf this ms url =
     (Inl (UnsupportedMethodError
            (''Unsupported HTTP method: '' @ ms @
             ''. Supported methods: GET, POST, PUT, DELETE, PATCH, HEAD, OPTIONS'')), this)"
  by (simp add: dispatch_def)

lemma dispatch_found:
  assumes "validateMethod ms" and "map_of (mocks this) (getKey ms url) = Some e"
  shows "dispatch pf this ms url =
           (construct pf (respond ms e),
            if once e = Some True then promoteNext this (getKey ms url)
            else markUsed this (getKey ms url) e)"
  using assms
  by (auto simp: dispatch_def promoteNext_def markUsed_def Let_def AList.delete_update_same
        split: option.splits list.splits)

subsection \<open>Association lists\<close>

lemma list_all_update:
  "list_all P al \<Longrightarrow> P (k, v) \<Longrightarrow> list_all P (AList.update k v al)"
  by (induction al) auto

lemma list_all_delete: "list_all P al \<Longrightarrow> list_all P (AList.delete k al)"
  by (induction al) auto

subsection \<open>The entries waiting under a key\<close>

lemma queue_free:
  assumes "queuedKeysActive this" and "map_of (mocks this) key = None"
  shows "map_of (mockQueue this) key = None"
proof (rule ccontr)
  assume "map_of (mockQueue this) key \<noteq> None"
  then obtain q where "map_of (mockQueue this) key = Some q" by auto
  then have "(key, q) \<in> set (mockQueue this)" by (rule map_of_SomeD)
  with assms(1) have "map_of (mocks this) key \<noteq> None"
    by (auto simp: queuedKeysActive_def list_all_iff)
  with assms(2) show False by simp
qed

lemma pending_storeMock:
  assumes "queuedKeysActive this"
  shows "pending (storeMock this key md) k =
           (if k = key then pending this key @ [md] else pending this k)"
  using queue_free [OF assms, of key]
  by (auto simp: pending_def storeMock_def AList.update_conv' split: option.splits)

lemma pending_markUsed:
  assumes "map_of (mocks this) key = Some e"
  shows "pending (markUsed this key e) k =
           (if k = key then e\<lparr> isUsed := True \<rparr> # tl (pending this key) else pending this k)"
  using assms
  by (auto simp: pending_def markUsed_def AList.update_conv' split: option.splits)

lemma pending_promoteNext:
  assumes "map_of (mocks this) key = Some e"
  shows "pending (promoteNext this key) k =
           (if k = key then tl (pending this key) else pending this k)"
  using assms
  by (auto simp: pending_def promoteNext_def AList.update_conv' AList.delete_conv'
        split: option.splits list.splits)

subsection \<open>What holds of every registry is kept by each call\<close>

lemma list_all_keys_update:
  "list_all P (map fst al) \<Longrightarrow> P k \<Longrightarrow> list_all P (map fst (AList.update k v al))"
  by (induction al) auto

lemma list_all_keys_delete:
  "list_all P (map fst al) \<Longrightarrow> list_all P (map fst (AList.delete k al))"
  by (induction al) auto

lemma queuesNonEmpty_storeMock: "queuesNonEmpty this \<Longrightarrow> queuesNonEmpty (storeMock this key md)"
  by (auto simp: queuesNonEmpty_def storeMock_def intro!: list_all_update)

lemma queuesNonEmpty_markUsed: "queuesNonEmpty this \<Longrightarrow> queuesNonEmpty (markUsed this key e)"
  by (simp add: queuesNonEmpty_def markUsed_def)

lemma queuesNonEmpty_promoteNext: "queuesNonEmpty this \<Longrightarrow> queuesNonEmpty (promoteNext this key)"
  by (auto simp: queuesNonEmpty_def promoteNext_def intro!: list_all_update list_all_delete
        split: option.splits list.splits)

lemma distinctKeys_storeMock: "distinctKeys this \<Longrightarrow> distinctKeys (storeMock this key md)"
  by (auto simp: distinctKeys_def storeMock_def intro: AList.distinct_update)

lemma distinctKeys_markUsed: "distinctKeys this \<Longrightarrow> distinctKeys (markUsed this key e)"
  by (auto simp: distinctKeys_def markUsed_def intro: AList.distinct_update)

lemma distinctKeys_promoteNext: "distinctKeys this \<Longrightarrow> distinctKeys (promoteNext this key)"
  by (auto simp: distinctKeys_def promoteNext_def
        intro: AList.distinct_update AList.distinct_delete split: option.splits list.splits)

lemma keysNonEmpty_storeMock:
  "keysNonEmpty this \<Longrightarrow> key \<noteq> [] \<Longrightarrow> keysNonEmpty (storeMock this key md)"
  by (auto simp: keysNonEmpty_def storeMock_def intro!: list_all_keys_update)

lemma keysNonEmpty_markUsed:
  "keysNonEmpty this \<Longrightarrow> key \<noteq> [] \<Longrightarrow> keysNonEmpty (markUsed this key e)"
  by (auto simp: keysNonEmpty_def markUsed_def intro!: list_all_keys_update)

lemma keysNonEmpty_promoteNext:
  "keysNonEmpty this \<Longrightarrow> key \<noteq> [] \<Longrightarrow> keysNonEmpty (promoteNext this key)"
  by (auto simp: keysNonEmpty_def promoteNext_def
        intro!: list_all_keys_update list_all_keys_delete split: option.splits list.splits)

lemma in_update_cases:
  "p \<in> set (AList.update k v al) \<Longrightarrow> p = (k, v) \<or> p \<in> set al"
  by (induction al) (auto split: if_splits)

lemma in_delete_cases:
  "p \<in> set (AList.delete k al) \<Longrightarrow> p \<in> set al \<and> fst p \<noteq> k"
  by (induction al) (auto split: if_splits)

lemma queuedKeysActive_storeMock:
  assumes "queuedKeysActive this"
  shows "queuedKeysActive (storeMock this key md)"
proof (cases "map_of (mocks this) key")
  case None
  with assms show ?thesis
    by (auto simp: queuedKeysActive_def storeMock_def AList.update_conv' list_all_iff)
next
  case (Some e)
  then have "list_all (\<lambda>(k, q). map_of (mocks this) k \<noteq> None)
               (AList.update key
                  ((case map_of (mockQueue this) key of Some q \<Rightarrow> q | None \<Rightarrow> []) @ [md])
                  (mockQueue this))"
    using assms by (intro list_all_update) (simp_all add: queuedKeysActive_def)
  with Some show ?thesis
    by (simp add: queuedKeysActive_def storeMock_def)
qed

lemma queuedKeysActive_markUsed:
  "queuedKeysActive this \<Longrightarrow> queuedKeysActive (markUsed this key e)"
  by (auto simp: queuedKeysActive_def markUsed_def AList.update_conv' list_all_iff)

lemma queuedKeysActive_promoteNext:
  assumes "queuedKeysActive this" and "queuesNonEmpty this"
  shows "queuedKeysActive (promoteNext this key)"
proof (cases "map_of (mockQueue this) key")
  case None
  then have "\<And>q. (key, q) \<notin> set (mockQueue this)"
    by (metis map_of_eq_None_iff fst_conv image_eqI)
  with assms(1) None show ?thesis
    by (auto simp: queuedKeysActive_def promoteNext_def list_all_iff AList.delete_conv')
next
  case (Some q)
  then have mem: "(key, q) \<in> set (mockQueue this)" by (rule map_of_SomeD)
  with assms(2) have "q \<noteq> []" by (auto simp: queuesNonEmpty_def list_all_iff)
  then obtain n rest where q: "q = n # rest" by (cases q) auto
  have P: "\<And>k r. (k, r) \<in> set (mockQueue this) \<Longrightarrow>
             map_of (AList.update key n (AList.delete key (mocks this))) k \<noteq> None"
    using assms(1)
    by (auto simp: queuedKeysActive_def list_all_iff AList.update_conv' AList.delete_conv')
  have Pk: "map_of (AList.update key n (AList.delete key (mocks this))) key \<noteq> None"
    by (simp add: AList.update_conv')
  show ?thesis
  proof (cases "rest = []")
    case True
    with Some q P show ?thesis
      by (auto simp: queuedKeysActive_def promoteNext_def list_all_iff dest!: in_delete_cases)
  next
    case False
    with Some q P Pk show ?thesis
      by (auto simp: queuedKeysActive_def promoteNext_def list_all_iff dest!: in_update_cases)
  qed
qed

lemma usedArePersistent_storeMock:
  assumes "usedArePersistent this" and "\<not> isUsed md"
  shows "usedArePersistent (storeMock this key md)"
proof (cases "map_of (mocks this) key")
  case None
  have "list_all (\<lambda>(k, e). \<not> (isUsed e \<and> once e = Some True)) (AList.update key md (mocks this))"
    using assms by (intro list_all_update) (simp_all add: usedArePersistent_def)
  with None assms(1) show ?thesis
    by (simp add: usedArePersistent_def storeMock_def)
next
  case active: (Some e)
  let ?q = "case map_of (mockQueue this) key of Some q \<Rightarrow> q | None \<Rightarrow> []"
  have "list_all (\<lambda>e. \<not> isUsed e) ?q"
  proof (cases "map_of (mockQueue this) key")
    case None
    then show ?thesis by simp
  next
    case (Some q)
    then have "(key, q) \<in> set (mockQueue this)" by (rule map_of_SomeD)
    with assms(1) Some show ?thesis by (auto simp: usedArePersistent_def list_all_iff)
  qed
  with assms(2) have "list_all (\<lambda>e. \<not> isUsed e) (?q @ [md])" by simp
  then have "list_all (\<lambda>(k, q). list_all (\<lambda>e. \<not> isUsed e) q)
               (AList.update key (?q @ [md]) (mockQueue this))"
    using assms(1) by (intro list_all_update) (simp_all add: usedArePersistent_def)
  with active assms(1) show ?thesis
    by (simp add: usedArePersistent_def storeMock_def)
qed

lemma usedArePersistent_markUsed:
  assumes "usedArePersistent this" and "once e \<noteq> Some True"
  shows "usedArePersistent (markUsed this key e)"
proof -
  have "list_all (\<lambda>(k, e). \<not> (isUsed e \<and> once e = Some True))
          (AList.update key (e\<lparr> isUsed := True \<rparr>) (mocks this))"
    using assms by (intro list_all_update) (simp_all add: usedArePersistent_def)
  with assms(1) show ?thesis
    by (simp add: usedArePersistent_def markUsed_def)
qed

lemma usedArePersistent_promoteNext:
  assumes "usedArePersistent this"
  shows "usedArePersistent (promoteNext this key)"
proof -
  have M: "list_all (\<lambda>(k, e). \<not> (isUsed e \<and> once e = Some True)) (AList.delete key (mocks this))"
    using assms by (intro list_all_delete) (simp add: usedArePersistent_def)
  have Q: "list_all (\<lambda>(k, q). list_all (\<lambda>e. \<not> isUsed e) q) (mockQueue this)"
    using assms by (simp add: usedArePersistent_def)
  show ?thesis
  proof (cases "map_of (mockQueue this) key")
    case None
    with M Q show ?thesis by (simp add: usedArePersistent_def promoteNext_def)
  next
    case (Some q)
    then have "(key, q) \<in> set (mockQueue this)" by (rule map_of_SomeD)
    with Q have unused: "list_all (\<lambda>e. \<not> isUsed e) q" by (auto simp: list_all_iff)
    show ?thesis
    proof (cases q)
      case Nil
      with Some M Q show ?thesis by (simp add: usedArePersistent_def promoteNext_def)
    next
      case (Cons n rest)
      with unused have n: "\<not> isUsed n" and rest: "list_all (\<lambda>e. \<not> isUsed e) rest" by simp_all
      have M': "list_all (\<lambda>(k, e). \<not> (isUsed e \<and> once e = Some True))
                  (AList.update key n (AList.delete key (mocks this)))"
        using M n by (intro list_all_update) simp_all
      have Q1: "list_all (\<lambda>(k, q). list_all (\<lambda>e. \<not> isUsed e) q) (AList.delete key (mockQueue this))"
        using Q by (rule list_all_delete)
      have Q2: "list_all (\<lambda>(k, q). list_all (\<lambda>e. \<not> isUsed e) q)
                  (AList.update key rest (mockQueue this))"
        using Q rest by (intro list_all_update) simp_all
      from Some Cons M' Q1 Q2 show ?thesis
        by (simp add: usedArePersistent_def promoteNext_def)
    qed
  qed
qed

subsection \<open>Every reachable registry is well formed\<close>

lemma wellFormed_new: "wellFormed (newFetchMock b)"
  by (simp add: wellFormed_def newFetchMock_def distinctKeys_def keysNonEmpty_def
        queuesNonEmpty_def queuedKeysActive_def usedArePersistent_def)

lemma wellFormed_reset: "wellFormed (reset this)"
  by (simp add: wellFormed_def reset_def distinctKeys_def keysNonEmpty_def
        queuesNonEmpty_def queuedKeysActive_def usedArePersistent_def)

lemma wellFormed_storeMock:
  "wellFormed this \<Longrightarrow> key \<noteq> [] \<Longrightarrow> \<not> isUsed md \<Longrightarrow> wellFormed (storeMock this key md)"
  by (simp add: wellFormed_def distinctKeys_storeMock keysNonEmpty_storeMock
        queuesNonEmpty_storeMock queuedKeysActive_storeMock usedArePersistent_storeMock)

lemma wellFormed_markUsed:
  "wellFormed this \<Longrightarrow> key \<noteq> [] \<Longrightarrow> once e \<noteq> Some True \<Longrightarrow> wellFormed (markUsed this key e)"
  by (simp add: wellFormed_def distinctKeys_markUsed keysNonEmpty_markUsed
        queuesNonEmpty_markUsed queuedKeysActive_markUsed usedArePersistent_markUsed)

lemma wellFormed_promoteNext:
  "wellFormed this \<Longrightarrow> key \<noteq> [] \<Longrightarrow> wellFormed (promoteNext this key)"
  by (simp add: wellFormed_def distinctKeys_promoteNext keysNonEmpty_promoteNext
        queuesNonEmpty_promoteNext queuedKeysActive_promoteNext usedArePersistent_promoteNext)

lemma isUsed_mockData: "\<not> isUsed (mockData opts)"
  by (simp add: mockData_def split: option.splits)

lemma dispatch_nomock:
  assumes "validateMethod ms" and "map_of (mocks this) (getKey ms url) = None"
  shows "dispatch pf this ms url =
           (Inl (NoMockFoundError
                  (''No mock found for '' @ getKey ms url @
                   (if join (map fst (mocks this) @ map fst (mockQueue this)) '', '' \<noteq> []
                    then ''. Available mocks: '' @
                         join (map fst (mocks this) @ map fst (mockQueue this)) '', ''
                    else []))), this)"
  using assms by (simp add: dispatch_def Let_def)

lemma wellFormed_mockRequestOf:
  assumes "wellFormed this"
  shows "wellFormed (snd (mockRequestOf c this m url opts))"
proof (cases "validateUrl url")
  case None
  then obtain u where u: "url = JStr u" by (auto simp: validateUrl_None_iff)
  with None assms show ?thesis
    by (simp add: mockRequestOf_valid wellFormed_storeMock getKey_nonempty isUsed_mockData)
next
  case (Some msg)
  with assms show ?thesis by (simp add: mockRequestOf_invalid)
qed

lemma wellFormed_dispatch:
  assumes "wellFormed this"
  shows "wellFormed (snd (dispatch pf this ms url))"
proof (cases "validateMethod ms")
  case False
  with assms show ?thesis by (simp add: dispatch_unsupported)
next
  case True
  show ?thesis
  proof (cases "map_of (mocks this) (getKey ms url)")
    case None
    with True assms show ?thesis by (simp add: dispatch_nomock)
  next
    case (Some e)
    with True assms show ?thesis
      by (simp add: dispatch_found wellFormed_markUsed wellFormed_promoteNext getKey_nonempty)
  qed
qed

lemma reachable_wellFormed: "reachable c this \<Longrightarrow> wellFormed this"
  by (induction rule: reachable.induct)
     (simp_all add: wellFormed_new wellFormed_reset wellFormed_mockRequestOf
        fetchMockOf_dispatch wellFormed_dispatch)

lemma join_nonempty:
  "ks \<noteq> [] \<Longrightarrow> list_all (\<lambda>k. k \<noteq> []) ks \<Longrightarrow> join ks sep \<noteq> []"
  by (induction ks sep rule: join.induct) auto

text \<open>The definitions a run on concrete arguments unfolds.\<close>

lemmas run_defs =
  fetchMockOf_def fetchMock_def fetchMock_part000_def dispatch_def respond_def
  validateMethod_def validMethods_def DEFAULT_METHOD_def
  mockRequestOf_def mockRequest_def mockRequest_part000_def validateUrl_def
  startsWith_def endsWith_def joinBaseUrl_def newFetchMock_def getKey_def mockData_def
  toUpperCase_def toUpperChar_def char_of_def bit_0 Let_def construct_def statusInRange_def

lemma dispatch_cases:
  "dispatch pf this ms url =
     (if \<not> validateMethod ms then
        (Inl (UnsupportedMethodError
               (''Unsupported HTTP method: '' @ ms @
                ''. Supported methods: GET, POST, PUT, DELETE, PATCH, HEAD, OPTIONS'')), this)
      else
        (case map_of (mocks this) (getKey ms url) of
           None \<Rightarrow>
             (Inl (NoMockFoundError
                    (''No mock found for '' @ getKey ms url @
                     (if join (map fst (mocks this) @ map fst (mockQueue this)) '', '' \<noteq> []
                      then ''. Available mocks: '' @
                           join (map fst (mocks this) @ map fst (mockQueue this)) '', ''
                      else []))), this)
         | Some e \<Rightarrow>
             (construct pf (respond ms e),
              if once e = Some True then promoteNext this (getKey ms url)
              else markUsed this (getKey ms url) e)))"
  by (simp add: dispatch_unsupported dispatch_nomock dispatch_found split: option.splits)

subsection \<open>Queues\<close>

lemma queuesNonEmpty_mockRequestOf:
  assumes "queuesNonEmpty this"
  shows "queuesNonEmpty (snd (mockRequestOf c this m url opts))"
proof (cases "validateUrl url")
  case None
  then obtain u where "url = JStr u" by (auto simp: validateUrl_None_iff)
  with None assms show ?thesis
    by (simp add: mockRequestOf_valid queuesNonEmpty_storeMock)
next
  case (Some msg)
  with assms show ?thesis by (simp add: mockRequestOf_invalid)
qed

lemma queuesNonEmpty_fetchMockOf:
  assumes "queuesNonEmpty this"
  shows "queuesNonEmpty (snd (fetchMockOf c pf this url init))"
  using assms
  by (simp add: fetchMockOf_dispatch dispatch_cases queuesNonEmpty_markUsed
        queuesNonEmpty_promoteNext split: option.splits)

lemma queue_created_by_push:
  assumes "map_of (mockQueue this) k = None"
      and "map_of (mockQueue (snd (mockRequestOf c this m url opts))) k = Some q"
  shows "q = [mockData opts]"
proof (cases "validateUrl url")
  case None
  then obtain u where "url = JStr u" by (auto simp: validateUrl_None_iff)
  with None assms show ?thesis
    by (auto simp: mockRequestOf_valid storeMock_def AList.update_conv' split: if_splits)
next
  case (Some msg)
  with assms show ?thesis by (simp add: mockRequestOf_invalid)
qed

lemma emptied_queue_removed:
  assumes "fetchMockOf c pf this url init = (Inr r, this')"
      and "map_of (mocks this) (getKey (methodStrOf c init) url) = Some e"
      and "once e = Some True"
      and "map_of (mockQueue this) (getKey (methodStrOf c init) url) = Some [n]"
  shows "map_of (mockQueue this') (getKey (methodStrOf c init) url) = None \<and>
         map_of (mocks this') (getKey (methodStrOf c init) url) = Some n"
  using assms
  by (auto simp: fetchMockOf_dispatch dispatch_cases promoteNext_def AList.update_conv'
        AList.delete_conv' split: if_splits)

lemma text_plain_underneath:
  "([''Content-Type'' \<mapsto> ''text/plain''] ++ hs) k =
     (case hs k of
        Some v \<Rightarrow> Some v
      | None \<Rightarrow> if k = ''Content-Type'' then Some ''text/plain'' else None)"
  by (simp add: map_add_def split: option.splits)

lemma fetchMockOf_success:
  assumes "fetchMockOf c pf this url init = (Inr r, this')"
  shows "\<exists>e. map_of (mocks this) (getKey (methodStrOf c init) url) = Some e \<and>
             r = respond (methodStrOf c init) e"
  using assms
  by (auto simp: fetchMockOf_dispatch dispatch_cases construct_Inr
        split: if_splits option.splits)

subsection \<open>Runs of registrations and of dispatches\<close>

lemma validateMethod_methodName: "validateMethod (methodName m)"
  by (cases m) (simp_all add: validateMethod_def validMethods_def)

lemma baseUrl_storeMock: "baseUrl (storeMock this key md) = baseUrl this"
  by (simp add: storeMock_def)

lemma fullUrlOf_baseUrl: "baseUrl this' = baseUrl this \<Longrightarrow> fullUrlOf c this' u = fullUrlOf c this u"
  by (cases c) (simp_all add: fullUrlOf_def)

lemma registerAll_pending:
  assumes "wellFormed this" and "validateUrl (JStr u) = None"
  shows "\<exists>this'. registerAll c this m (JStr u) optss = (Inr (), this') \<and>
           wellFormed this' \<and> baseUrl this' = baseUrl this \<and>
           (\<forall>k. pending this' k =
                  (if k = getKey (methodName m) (fullUrlOf c this u)
                   then pending this k @ map mockData optss else pending this k))"
  using assms(1)
proof (induction optss arbitrary: this)
  case Nil
  then show ?case by simp
next
  case (Cons opts rest)
  let ?key = "getKey (methodName m) (fullUrlOf c this u)"
  let ?s = "storeMock this ?key (mockData opts)"
  have step: "mockRequestOf c this m (JStr u) opts = (Inr (), ?s)"
    using assms(2) by (rule mockRequestOf_valid)
  have wf: "wellFormed ?s"
    using Cons.prems by (simp add: wellFormed_storeMock getKey_nonempty isUsed_mockData)
  have base: "baseUrl ?s = baseUrl this" by (rule baseUrl_storeMock)
  have qa: "queuedKeysActive this" using Cons.prems by (simp add: wellFormed_def)
  from Cons.IH [OF wf] obtain this' where
    run: "registerAll c ?s m (JStr u) rest = (Inr (), this')" and
    wf': "wellFormed this'" and base': "baseUrl this' = baseUrl ?s" and
    pend: "\<forall>k. pending this' k =
                  (if k = getKey (methodName m) (fullUrlOf c ?s u)
                   then pending ?s k @ map mockData rest else pending ?s k)"
    by blast
  have key: "getKey (methodName m) (fullUrlOf c ?s u) = ?key"
    using fullUrlOf_baseUrl [OF base, of c u] by simp
  have 1: "registerAll c this m (JStr u) (opts # rest) = (Inr (), this')"
    by (simp add: step run)
  have 2: "baseUrl this' = baseUrl this" by (simp add: base base')
  have 3: "pending this' k =
             (if k = ?key then pending this k @ map mockData (opts # rest) else pending this k)"
    for k
  proof -
    have "pending this' k = (if k = ?key then pending ?s k @ map mockData rest else pending ?s k)"
      using pend key by simp
    also have "pending ?s k = (if k = ?key then pending this ?key @ [mockData opts] else pending this k)"
      by (rule pending_storeMock [OF qa])
    finally show ?thesis by simp
  qed
  show ?case
  proof (intro exI conjI allI)
    show "registerAll c this m (JStr u) (opts # rest) = (Inr (), this')" by (rule 1)
    show "wellFormed this'" by (rule wf')
    show "baseUrl this' = baseUrl this" by (rule 2)
    show "pending this' k =
            (if k = ?key then pending this k @ map mockData (opts # rest) else pending this k)"
      for k by (rule 3)
  qed
qed

lemma fetchTimes_add:
  "fetchTimes c pf this url init (n + k) =
     (case fetchTimes c pf this url init n of
        (rs, this') \<Rightarrow>
          (case fetchTimes c pf this' url init k of (rs', this'') \<Rightarrow> (rs @ rs', this'')))"
  by (induction n arbitrary: this) (simp_all split: prod.splits)

lemma fetchTimes_once:
  assumes "validateMethod (methodStrOf c init)"
      and "pending this (getKey (methodStrOf c init) url) = es"
      and "list_all (\<lambda>e. once e = Some True) es"
      and "n \<le> length es"
  shows "fst (fetchTimes c pf this url init n) =
           map (\<lambda>e. construct pf (respond (methodStrOf c init) e)) (take n es) \<and>
         pending (snd (fetchTimes c pf this url init n)) (getKey (methodStrOf c init) url) =
           drop n es"
  using assms(2-4)
proof (induction n arbitrary: this es)
  case 0
  then show ?case by simp
next
  case (Suc n)
  let ?ms = "methodStrOf c init"
  let ?key = "getKey ?ms url"
  from Suc.prems obtain e rest where es: "es = e # rest" by (cases es) auto
  with Suc.prems have act: "map_of (mocks this) ?key = Some e"
    by (auto simp: pending_def split: option.splits)
  from es Suc.prems have once: "once e = Some True" by simp
  have step: "fetchMockOf c pf this url init =
                (construct pf (respond ?ms e), promoteNext this ?key)"
    using assms(1) act once by (simp add: fetchMockOf_dispatch dispatch_found)
  have pend: "pending (promoteNext this ?key) ?key = rest"
    using Suc.prems(1) es by (simp add: pending_promoteNext [OF act])
  from es Suc.prems have "list_all (\<lambda>e. once e = Some True) rest" "n \<le> length rest"
    by simp_all
  from Suc.IH [OF pend this] show ?case
    using step es by (cases "fetchTimes c pf (promoteNext this ?key) url init n") simp
qed

lemma fetchMockOf_nothing_pending:
  assumes "validateMethod (methodStrOf c init)"
      and "pending this (getKey (methodStrOf c init) url) = []"
  shows "\<exists>msg. fetchMockOf c pf this url init = (Inl (NoMockFoundError msg), this)"
proof -
  from assms(2) have "map_of (mocks this) (getKey (methodStrOf c init) url) = None"
    by (auto simp: pending_def split: option.splits)
  with assms(1) show ?thesis
    by (simp add: fetchMockOf_dispatch dispatch_nomock)
qed

subsection \<open>The flag \<open>isUsed\<close>\<close>

lemma fetchMockOf_matched:
  assumes "fetchMockOf c pf this url init = (Inr r, this')"
  shows "\<exists>e. map_of (mocks this) (getKey (methodStrOf c init) url) = Some e \<and>
             this' = (if once e = Some True then promoteNext this (getKey (methodStrOf c init) url)
                      else markUsed this (getKey (methodStrOf c init) url) e)"
  using assms
  by (auto simp: fetchMockOf_dispatch dispatch_cases split: if_splits option.splits)

lemma pending_after_dispatch:
  assumes "fetchMockOf c pf this url init = (Inr r, this')"
  shows "\<exists>e rest.
           pending this (getKey (methodStrOf c init) url) = e # rest \<and>
           r = respond (methodStrOf c init) e \<and>
           pending this' (getKey (methodStrOf c init) url) =
             (if once e = Some True then rest else e\<lparr> isUsed := True \<rparr> # rest) \<and>
           (\<forall>k. k \<noteq> getKey (methodStrOf c init) url \<longrightarrow> pending this' k = pending this k)"
proof -
  let ?key = "getKey (methodStrOf c init) url"
  from fetchMockOf_matched [OF assms] obtain e where
    e: "map_of (mocks this) ?key = Some e" and
    s: "this' = (if once e = Some True then promoteNext this ?key else markUsed this ?key e)"
    by blast
  from fetchMockOf_success [OF assms] e have r: "r = respond (methodStrOf c init) e" by simp
  from e obtain rest where p: "pending this ?key = e # rest"
    by (simp add: pending_def)
  show ?thesis
  proof (cases "once e = Some True")
    case True
    with s p r show ?thesis by (simp add: pending_promoteNext [OF e])
  next
    case False
    with s p r show ?thesis by (simp add: pending_markUsed [OF e])
  qed
qed

lemma pending_after_register:
  assumes "wellFormed this"
  shows "pending (snd (mockRequestOf c this m url opts)) k = pending this k \<or>
         pending (snd (mockRequestOf c this m url opts)) k = pending this k @ [mockData opts]"
proof (cases "validateUrl url")
  case None
  then obtain u where "url = JStr u" by (auto simp: validateUrl_None_iff)
  moreover have "queuedKeysActive this" using assms by (simp add: wellFormed_def)
  ultimately show ?thesis
    using None by (simp add: mockRequestOf_valid pending_storeMock)
next
  case (Some msg)
  then show ?thesis by (simp add: mockRequestOf_invalid)
qed

lemma active_kept_by_register:
  assumes "map_of (mocks this) k = Some e"
  shows "map_of (mocks (snd (mockRequestOf c this m url opts))) k = Some e"
proof (cases "validateUrl url")
  case None
  then obtain u where "url = JStr u" by (auto simp: validateUrl_None_iff)
  with None assms show ?thesis
    by (auto simp: mockRequestOf_valid storeMock_def AList.update_conv')
next
  case (Some msg)
  with assms show ?thesis by (simp add: mockRequestOf_invalid)
qed

lemma used_not_once:
  assumes "wellFormed this" and "map_of (mocks this) k = Some e" and "isUsed e"
  shows "once e \<noteq> Some True"
proof -
  from assms(2) have "(k, e) \<in> set (mocks this)" by (rule map_of_SomeD)
  with assms(1,3) show ?thesis
    by (auto simp: wellFormed_def usedArePersistent_def list_all_iff)
qed

lemma queued_unused:
  assumes "wellFormed this" and "map_of (mockQueue this) k = Some q"
  shows "list_all (\<lambda>e. \<not> isUsed e) q"
proof -
  from assms(2) have "(k, q) \<in> set (mockQueue this)" by (rule map_of_SomeD)
  with assms(1) show ?thesis
    by (auto simp: wellFormed_def usedArePersistent_def list_all_iff)
qed

lemma used_kept_by_dispatch:
  assumes "wellFormed this" and "map_of (mocks this) k = Some e" and "isUsed e"
  shows "map_of (mocks (snd (dispatch pf this ms url))) k = Some e"
proof (cases "validateMethod ms")
  case False
  with assms(2) show ?thesis by (simp add: dispatch_unsupported)
next
  case True
  show ?thesis
  proof (cases "map_of (mocks this) (getKey ms url)")
    case None
    with True assms(2) show ?thesis by (simp add: dispatch_nomock)
  next
    case (Some e')
    show ?thesis
    proof (cases "k = getKey ms url")
      case same: True
      with Some assms(2) have "e' = e" by simp
      moreover from used_not_once [OF assms] have "once e \<noteq> Some True" .
      moreover from assms(3) have "e\<lparr> isUsed := True \<rparr> = e" by simp
      ultimately show ?thesis
        using True Some same
        by (simp add: dispatch_found markUsed_def AList.update_conv')
    next
      case False
      with True Some assms(2) show ?thesis
        by (auto simp: dispatch_found markUsed_def promoteNext_def AList.update_conv'
              AList.delete_conv' split: option.splits list.splits)
    qed
  qed
qed

lemma assertAllMocksUsed_state: "snd (assertAllMocksUsed this) = this"
  by (simp add: assertAllMocksUsed_def split: option.splits)

text \<open>
  The constructor's throw comes after the match: registered in \<^verbatim>\<open>part_000\<close> with the
  status \<open>65736\<close>, an entry is marked used by the dispatch that throws the platform's
  error.
\<close>

lemma platform_throw_after_match:
  "fst (fetchMock_part000 rangeChecked
          (snd (mockRequest_part000 (newFetchMock None) GET (JStr ''/a'')
             (Some \<lparr> data = JUndefined, status = Some 65736, headers = None,
                      statusText = None, once = None \<rparr>)))
          ''/a'' None) = Inl (PlatformError ''RangeError'') \<and>
   map isUsed (map snd (mocks
     (snd (mockRequest_part000 (newFetchMock None) GET (JStr ''/a'')
        (Some \<lparr> data = JUndefined, status = Some 65736, headers = None,
                 statusText = None, once = None \<rparr>))))) = [False] \<and>
   map isUsed (map snd (mocks
     (snd (fetchMock_part000 rangeChecked
        (snd (mockRequest_part000 (newFetchMock None) GET (JStr ''/a'')
           (Some \<lparr> data = JUndefined, status = Some 65736, headers = None,
                    statusText = None, once = None \<rparr>)))
        ''/a'' None)))) = [True]"
  by (simp add: run_defs)

lemma matched_dispatch_state:
  assumes "validateMethod (methodStrOf c init)"
      and "map_of (mocks this) (getKey (methodStrOf c init) url) = Some e"
  shows "snd (fetchMockOf c pf this url init) =
           (if once e = Some True then promoteNext this (getKey (methodStrOf c init) url)
            else markUsed this (getKey (methodStrOf c init) url) e)"
  using assms by (simp add: fetchMockOf_dispatch dispatch_found)

lemma pending_after_match:
  assumes "validateMethod (methodStrOf c init)"
      and "map_of (mocks this) (getKey (methodStrOf c init) url) = Some e"
  shows "\<exists>rest.
           pending this (getKey (methodStrOf c init) url) = e # rest \<and>
           pending (snd (fetchMockOf c pf this url init)) (getKey (methodStrOf c init) url) =
             (if once e = Some True then rest else e\<lparr> isUsed := True \<rparr> # rest) \<and>
           (\<forall>k. k \<noteq> getKey (methodStrOf c init) url \<longrightarrow>
                pending (snd (fetchMockOf c pf this url init)) k = pending this k)"
proof -
  let ?key = "getKey (methodStrOf c init) url"
  from assms(2) obtain rest where p: "pending this ?key = e # rest"
    by (simp add: pending_def)
  show ?thesis
  proof (cases "once e = Some True")
    case True
    with p show ?thesis
      by (simp add: matched_dispatch_state [OF assms] pending_promoteNext [OF assms(2)])
  next
    case False
    with p show ?thesis
      by (simp add: matched_dispatch_state [OF assms] pending_markUsed [OF assms(2)])
  qed
qed

lemma returned_dispatch_matched:
  assumes "fst (fetchMockOf c pf this url init) = Inr r"
  shows "validateMethod (methodStrOf c init) \<and>
         (\<exists>e. map_of (mocks this) (getKey (methodStrOf c init) url) = Some e)"
  using assms
  by (auto simp: fetchMockOf_dispatch dispatch_cases split: if_splits option.splits)

lemma unmatched_dispatch_thrown:
  assumes "\<not> validateMethod (methodStrOf c init) \<or>
           map_of (mocks this) (getKey (methodStrOf c init) url) = None"
  shows "(\<exists>msg. fst (fetchMockOf c pf this url init) = Inl (UnsupportedMethodError msg)) \<or>
         (\<exists>msg. fst (fetchMockOf c pf this url init) = Inl (NoMockFoundError msg))"
  using assms by (auto simp: fetchMockOf_dispatch dispatch_cases)

lemma unmatched_dispatch_state:
  assumes "\<not> validateMethod (methodStrOf c init) \<or>
           map_of (mocks this) (getKey (methodStrOf c init) url) = None"
  shows "snd (fetchMockOf c pf this url init) = this"
  using assms by (auto simp: fetchMockOf_dispatch dispatch_cases)

lemma unsupported_thrown_iff:
  "(\<exists>msg. fst (fetchMockOf c pf this url init) = Inl (UnsupportedMethodError msg)) \<longleftrightarrow>
     \<not> validateMethod (methodStrOf c init)"
  by (auto simp: fetchMockOf_dispatch dispatch_cases construct_Inl split: option.splits)

lemma no_mock_thrown_iff:
  "(\<exists>msg. fst (fetchMockOf c pf this url init) = Inl (NoMockFoundError msg)) \<longleftrightarrow>
     validateMethod (methodStrOf c init) \<and>
     map_of (mocks this) (getKey (methodStrOf c init) url) = None"
  by (auto simp: fetchMockOf_dispatch dispatch_cases construct_Inl split: option.splits)

subsection \<open>Verification\<close>

lemma assertMocks_None: "assertMocks al = None \<longleftrightarrow> (\<forall>e \<in> set (map snd al). isUsed e)"
  by (induction al rule: assertMocks.induct) auto

lemma assertMocks_Some:
  "assertMocks al = Some err \<Longrightarrow> \<exists>key \<in> set (map fst al). err = notUsed key"
  by (induction al rule: assertMocks.induct) (auto split: if_splits)

lemma assertQueue_None: "assertQueue key q = None \<longleftrightarrow> (\<forall>e \<in> set q. isUsed e)"
  by (induction q) auto

lemma assertQueue_Some: "assertQueue key q = Some err \<Longrightarrow> err = notUsed key"
  by (induction q) (auto split: if_splits)

lemma assertQueues_None:
  "assertQueues qs = None \<longleftrightarrow> (\<forall>e \<in> set (concat (map snd qs)). isUsed e)"
proof (induction qs)
  case Nil
  then show ?case by simp
next
  case (Cons p qs)
  obtain key q where p: "p = (key, q)" by (cases p)
  show ?case
  proof (cases "assertQueue key q")
    case None
    then have "\<forall>e \<in> set q. isUsed e" by (simp add: assertQueue_None)
    with None Cons.IH p show ?thesis by auto
  next
    case (Some err)
    then have "\<not> (\<forall>e \<in> set q. isUsed e)"
      using assertQueue_None [of key q] by simp
    with Some p show ?thesis by auto
  qed
qed

lemma assertQueues_Some:
  "assertQueues qs = Some err \<Longrightarrow> \<exists>key \<in> set (map fst qs). err = notUsed key"
  by (induction qs rule: assertQueues.induct)
     (auto dest: assertQueue_Some split: option.splits)

lemma assertAllMocksUsed_passes:
  "fst (assertAllMocksUsed this) = Inr () \<longleftrightarrow> (\<forall>e \<in> set (allEntries this). isUsed e)"
proof (cases "assertMocks (mocks this)")
  case None
  then show ?thesis
    using assertMocks_None [of "mocks this"] assertQueues_None [of "mockQueue this"]
    by (auto simp: assertAllMocksUsed_def allEntries_def split: option.splits)
next
  case (Some err)
  then show ?thesis
    using assertMocks_None [of "mocks this"]
    by (auto simp: assertAllMocksUsed_def allEntries_def)
qed

lemma assertAllMocksUsed_fails:
  assumes "fst (assertAllMocksUsed this) = Inl err"
  shows "\<exists>key \<in> set (map fst (mocks this) @ map fst (mockQueue this)). err = notUsed key"
  using assms assertMocks_Some [of "mocks this" err] assertQueues_Some [of "mockQueue this" err]
  by (auto simp: assertAllMocksUsed_def split: option.splits)

subsection \<open>The entries of a registry as a multiset\<close>

lemma mset_delete_active:
  "distinct (map fst al) \<Longrightarrow> map_of al k = Some v \<Longrightarrow>
   add_mset v (mset (map snd (AList.delete k al))) = mset (map snd al)"
proof (induction al)
  case Nil
  then show ?case by simp
next
  case (Cons p al)
  show ?case
  proof (cases "fst p = k")
    case True
    with Cons.prems have "k \<notin> fst ` set al" "snd p = v" by auto
    with True show ?thesis by (cases p) (simp add: AList.delete_id)
  next
    case False
    with Cons show ?thesis by (cases p) auto
  qed
qed

lemma mset_update_new:
  "k \<notin> fst ` set al \<Longrightarrow> mset (map snd (AList.update k v al)) = add_mset v (mset (map snd al))"
  by (induction al) auto

lemma mset_delete_queue:
  "distinct (map fst qs) \<Longrightarrow> map_of qs k = Some q \<Longrightarrow>
   mset q + mset (concat (map snd (AList.delete k qs))) = mset (concat (map snd qs))"
proof (induction qs)
  case Nil
  then show ?case by simp
next
  case (Cons p qs)
  show ?case
  proof (cases "fst p = k")
    case True
    with Cons.prems have "k \<notin> fst ` set qs" "snd p = q" by auto
    with True show ?thesis by (cases p) (simp add: AList.delete_id)
  next
    case False
    with Cons show ?thesis by (cases p) auto
  qed
qed

lemma mset_update_queue:
  "map_of qs k = Some (n # rest) \<Longrightarrow>
   add_mset n (mset (concat (map snd (AList.update k rest qs)))) = mset (concat (map snd qs))"
  by (induction qs) (auto split: if_splits)

lemma entries_after_promoteNext:
  assumes "wellFormed this" and "map_of (mocks this) key = Some e"
  shows "add_mset e (mset (allEntries (promoteNext this key))) = mset (allEntries this)"
proof -
  let ?A = "mset (map snd (AList.delete key (mocks this)))"
  have dm: "distinct (map fst (mocks this))" and dq: "distinct (map fst (mockQueue this))"
    using assms(1) by (simp_all add: wellFormed_def distinctKeys_def)
  have del: "mset (map snd (mocks this)) = add_mset e ?A"
    using mset_delete_active [OF dm assms(2)] by simp
  show ?thesis
  proof (cases "map_of (mockQueue this) key")
    case None
    then have "mset (allEntries (promoteNext this key)) =
                 ?A + mset (concat (map snd (mockQueue this)))"
      by (simp add: promoteNext_def allEntries_def)
    moreover have "mset (allEntries this) =
                 add_mset e ?A + mset (concat (map snd (mockQueue this)))"
      using del by (simp add: allEntries_def)
    ultimately show ?thesis by simp
  next
    case (Some q)
    then have "(key, q) \<in> set (mockQueue this)" by (rule map_of_SomeD)
    with assms(1) have "q \<noteq> []"
      by (auto simp: wellFormed_def queuesNonEmpty_def list_all_iff)
    then obtain n rest where q: "q = n # rest" by (cases q) auto
    let ?Q' = "mset (concat (map snd (mockQueue (promoteNext this key))))"
    have up: "mset (map snd (AList.update key n (AList.delete key (mocks this)))) = add_mset n ?A"
      by (rule mset_update_new) (rule AList.delete_notin_dom)
    have new: "mset (allEntries (promoteNext this key)) = add_mset n ?A + ?Q'"
      using Some q up by (simp add: promoteNext_def allEntries_def)
    have queue: "mset (concat (map snd (mockQueue this))) = add_mset n ?Q'"
    proof (cases "rest = []")
      case True
      from mset_delete_queue [OF dq Some] q True Some show ?thesis
        by (simp add: promoteNext_def)
    next
      case False
      from mset_update_queue [of "mockQueue this" key n rest] q False Some show ?thesis
        by (simp add: promoteNext_def)
    qed
    have "mset (allEntries this) = add_mset e ?A + add_mset n ?Q'"
      using del queue by (simp add: allEntries_def)
    with new show ?thesis by simp
  qed
qed

subsection \<open>Where the two copies differ: the base URL\<close>

text \<open>
  In \<^verbatim>\<open>part_000\<close> a path is stored under the base URL without its trailing slash,
  followed by the path, and under the path alone when no base URL is configured.
\<close>

lemma joinBaseUrl_strips_slash:
  "joinBaseUrl base path =
     (if base = [] then path
      else if last base = CHR ''/'' then butlast base @ path
      else base @ path)"
  by (cases base rule: rev_cases) (simp_all add: joinBaseUrl_def endsWith_def butlast_conv_take)

lemma part000_registers_joined_url:
  assumes "startsWith p ''/''"
  shows "mockRequest_part000 this m (JStr p) opts =
           (Inr (),
            storeMock this
              (getKey (methodName m)
                 (if baseUrl this = [] then p
                  else if last (baseUrl this) = CHR ''/'' then butlast (baseUrl this) @ p
                  else baseUrl this @ p))
              (mockData opts))"
proof -
  have "validateUrl (JStr p) = None" using assms by (auto simp: validateUrl_None_iff)
  from mockRequestOf_valid [OF this, of Part000 this m opts] assms show ?thesis
    by (simp add: mockRequestOf_def fullUrlOf_def joinBaseUrl_strips_slash)
qed

lemma part000_example:
  "map fst (mocks (snd (mockRequest_part000 (newFetchMock (Some ''https://api.example.com/''))
                          GET (JStr ''/users'') None))) =
     [''[GET] https://api.example.com/users''] \<and>
   map fst (mocks (snd (mockRequest_part000 (newFetchMock None) GET (JStr ''/users'') None))) =
     [''[GET] /users'']"
  by (simp add: run_defs)

subsection \<open>Where the two copies differ: the case of the method\<close>

lemma toUpperChar_idem: "toUpperChar (toUpperChar c) = toUpperChar c"
  by (auto simp: toUpperChar_def Let_def)

lemma toUpperCase_idem: "toUpperCase (toUpperCase s) = toUpperCase s"
  by (simp add: toUpperCase_def toUpperChar_idem)

text \<open>
  In \<^verbatim>\<open>part_000\<close> the method of the call is upper-cased before it is checked and
  before the key is computed, so two calls whose methods differ in case only behave
  alike.
\<close>

lemma part000_method_case:
  "fetchMock_part000 pf this url init = dispatch pf this (toUpperCase (initMethod init)) url"
  "toUpperCase s = toUpperCase s' \<Longrightarrow>
     fetchMock_part000 pf this url (Some \<lparr> method' = Some s \<rparr>) =
     fetchMock_part000 pf this url (Some \<lparr> method' = Some s' \<rparr>)"
  "fetchMock_part000 pf this url (Some \<lparr> method' = Some ''get'' \<rparr>) =
     fetchMock_part000 pf this url (Some \<lparr> method' = Some ''GET'' \<rparr>)"
  "fetchMock_part000 pf this url (Some \<lparr> method' = Some (toUpperCase s) \<rparr>) =
     fetchMock_part000 pf this url (Some \<lparr> method' = Some s \<rparr>)"
  "fetchMock_part000 pf this url None = fetchMock_part000 pf this url (Some \<lparr> method' = Some ''GET'' \<rparr>)"
  by (simp_all add: fetchMock_part000_def initMethod_def toUpperCase_idem DEFAULT_METHOD_def)
     (simp_all add: toUpperCase_def toUpperChar_def char_of_def bit_0)

section \<open>The properties of the specification\<close>

subsection \<open>The base URL of a registered path\<close>

text \<open>
  C1. In \<^verbatim>\<open>src/index.ts\<close> the path is appended to the base URL as it is: with the
  base URL \<^verbatim>\<open>https://api.example.com/\<close> the path \<^verbatim>\<open>/users\<close> is stored under a URL
  with a doubled slash, and a dispatch to \<^verbatim>\<open>https://api.example.com/users\<close> finds no
  mock. The same registration in \<^verbatim>\<open>part_000\<close> is stored under the URL with one
  slash, and the dispatch finds it.
\<close>

theorem index_ts_keeps_trailing_slash:
  "map fst (mocks (snd (mockRequest (newFetchMock (Some ''https://api.example.com/''))
                          GET (JStr ''/users'') None))) =
     [''[GET] https://api.example.com//users''] \<and>
   fst (fetchMock rangeChecked
          (snd (mockRequest (newFetchMock (Some ''https://api.example.com/''))
                  GET (JStr ''/users'') None))
          ''https://api.example.com/users'' None) =
     Inl (NoMockFoundError
            ''No mock found for [GET] https://api.example.com/users. Available mocks: [GET] https://api.example.com//users'') \<and>
   map fst (mocks (snd (mockRequest_part000 (newFetchMock (Some ''https://api.example.com/''))
                          GET (JStr ''/users'') None))) =
     [''[GET] https://api.example.com/users''] \<and>
   fst (fetchMock_part000 rangeChecked
          (snd (mockRequest_part000 (newFetchMock (Some ''https://api.example.com/''))
                  GET (JStr ''/users'') None))
          ''https://api.example.com/users'' None) =
     Inr (NewResponse None
            \<lparr> resStatus = 200, resHeaders = Map.empty, resStatusText = ''OK'' \<rparr>)"
  by (simp add: run_defs)

subsection \<open>The case of the request method\<close>

text \<open>
  C2. In \<^verbatim>\<open>src/index.ts\<close> the method is used as written: after
  \<^verbatim>\<open>get("/status")\<close> a dispatch with the method \<^verbatim>\<open>get\<close> throws the
  unsupported-method error, while the same dispatch with \<^verbatim>\<open>GET\<close> returns the
  response. In \<^verbatim>\<open>part_000\<close> the dispatch with \<^verbatim>\<open>get\<close> returns the response.
\<close>

theorem index_ts_method_not_uppercased:
  "fst (fetchMock rangeChecked (snd (mockRequest (newFetchMock None) GET (JStr ''/status'') None))
          ''/status'' (Some \<lparr> method' = Some ''get'' \<rparr>)) =
     Inl (UnsupportedMethodError
            ''Unsupported HTTP method: get. Supported methods: GET, POST, PUT, DELETE, PATCH, HEAD, OPTIONS'') \<and>
   fst (fetchMock rangeChecked (snd (mockRequest (newFetchMock None) GET (JStr ''/status'') None))
          ''/status'' (Some \<lparr> method' = Some ''GET'' \<rparr>)) =
     Inr (NewResponse None
            \<lparr> resStatus = 200, resHeaders = Map.empty, resStatusText = ''OK'' \<rparr>) \<and>
   fst (fetchMock_part000 rangeChecked (snd (mockRequest_part000 (newFetchMock None) GET (JStr ''/status'') None))
          ''/status'' (Some \<lparr> method' = Some ''get'' \<rparr>)) =
     Inr (NewResponse None
            \<lparr> resStatus = 200, resHeaders = Map.empty, resStatusText = ''OK'' \<rparr>)"
  by (simp add: run_defs)

subsection \<open>Single-use mocks in sequence\<close>

text \<open>
  As the claim is written, every one of the first \<open>N\<close> dispatches returns a response.
  The response is constructed after the entry is consumed, and the constructor can
  throw: one \<^verbatim>\<open>once\<close> registration with the status \<open>0\<close>, on a platform that checks the
  range of the status, and the first dispatch throws the platform's error instead of
  returning, the second finds no mock.
\<close>

theorem once_mock_with_rejected_status:
  "fst (mockRequest (newFetchMock None) GET (JStr ''/data'')
          (Some \<lparr> data = JUndefined, status = Some 0, headers = None, statusText = None,
                   once = Some True \<rparr>)) = Inr () \<and>
   fst (fetchMock rangeChecked
          (snd (mockRequest (newFetchMock None) GET (JStr ''/data'')
             (Some \<lparr> data = JUndefined, status = Some 0, headers = None, statusText = None,
                      once = Some True \<rparr>)))
          ''/data'' None) = Inl (PlatformError ''RangeError'') \<and>
   \<not> (\<exists>r. fst (fetchMock rangeChecked
          (snd (mockRequest (newFetchMock None) GET (JStr ''/data'')
             (Some \<lparr> data = JUndefined, status = Some 0, headers = None, statusText = None,
                      once = Some True \<rparr>)))
          ''/data'' None) = Inr r) \<and>
   fst (fetchMock rangeChecked
          (snd (fetchMock rangeChecked
             (snd (mockRequest (newFetchMock None) GET (JStr ''/data'')
                (Some \<lparr> data = JUndefined, status = Some 0, headers = None, statusText = None,
                         once = Some True \<rparr>)))
             ''/data'' None))
          ''/data'' None) = Inl (NoMockFoundError ''No mock found for [GET] /data'')"
  by (simp add: run_defs)

text \<open>
  C3. Take a registry a test can reach in which the key of \<open>(m, u)\<close> has no active
  entry, and register \<open>N\<close> specs under that key, each with \<^verbatim>\<open>once: true\<close>. Every
  registration returns. Of the next \<open>N + 1\<close> dispatches to the key, the \<open>i\<close>-th of the
  first \<open>N\<close> is served by the \<open>i\<close>-th spec in registration order: its outcome is what
  the platform's constructor makes of the response of that spec, the response itself
  or the constructor's error; the last dispatch throws the no-mock-found error. So
  when the platform constructs the response of every spec, the first \<open>N\<close> dispatches
  return the responses of the specs in registration order. On any platform, after
  \<open>i \<le> N\<close> dispatches the entries waiting under the key are the specs from the \<open>i\<close>-th
  on: each dispatch removed the matched entry and made the next one active.
\<close>

theorem once_mocks_served_in_order:
  assumes "reachable c this"
      and "validateUrl (JStr u) = None"
      and "map_of (mocks this) (getKey (methodName m) (fullUrlOf c this u)) = None"
      and "\<forall>s \<in> set specs. once s = Some True"
      and "methodStrOf c init = methodName m"
  shows "\<exists>this1 msg.
           registerAll c this m (JStr u) (map Some specs) = (Inr (), this1) \<and>
           fst (fetchTimes c pf this1 (fullUrlOf c this u) init (Suc (length specs))) =
             map (\<lambda>s. construct pf (respond (methodName m) (mockData (Some s)))) specs @
             [Inl (NoMockFoundError msg)] \<and>
           ((\<forall>s \<in> set specs. pf (respond (methodName m) (mockData (Some s))) = None) \<longrightarrow>
              fst (fetchTimes c pf this1 (fullUrlOf c this u) init (Suc (length specs))) =
                map (\<lambda>s. Inr (respond (methodName m) (mockData (Some s)))) specs @
                [Inl (NoMockFoundError msg)]) \<and>
           (\<forall>i \<le> length specs.
              pending (snd (fetchTimes c pf this1 (fullUrlOf c this u) init i))
                (getKey (methodName m) (fullUrlOf c this u)) =
              drop i (map (\<lambda>s. mockData (Some s)) specs))"
proof -
  let ?url = "fullUrlOf c this u"
  let ?key = "getKey (methodName m) ?url"
  let ?es = "map (\<lambda>s. mockData (Some s)) specs"
  have wf: "wellFormed this" using assms(1) by (rule reachable_wellFormed)
  have empty: "pending this ?key = []" using assms(3) by (simp add: pending_def)
  from registerAll_pending [OF wf assms(2), of c m "map Some specs"] obtain this1 where
    reg: "registerAll c this m (JStr u) (map Some specs) = (Inr (), this1)" and
    pend: "pending this1 ?key = pending this ?key @ map mockData (map Some specs)"
    by auto
  have vm: "validateMethod (methodStrOf c init)"
    unfolding assms(5) by (rule validateMethod_methodName)
  have p1: "pending this1 (getKey (methodStrOf c init) ?url) = ?es"
    using pend empty by (simp add: assms(5) comp_def)
  have once: "list_all (\<lambda>e. once e = Some True) ?es"
    using assms(4) by (simp add: list_all_iff mockData_def)
  note run = fetchTimes_once [OF vm p1 once, of _ pf]
  from run [of "length specs"] have
    firstN: "fst (fetchTimes c pf this1 ?url init (length specs)) =
            map (\<lambda>e. construct pf (respond (methodName m) e)) ?es" and
    drained: "pending (snd (fetchTimes c pf this1 ?url init (length specs)))
             (getKey (methodStrOf c init) ?url) = []"
    by (simp_all add: assms(5))
  from fetchMockOf_nothing_pending [OF vm drained] obtain msg where
    last: "fetchMockOf c pf (snd (fetchTimes c pf this1 ?url init (length specs))) ?url init =
             (Inl (NoMockFoundError msg), snd (fetchTimes c pf this1 ?url init (length specs)))"
    by blast
  have "fetchTimes c pf this1 ?url init (Suc (length specs)) =
          fetchTimes c pf this1 ?url init (length specs + 1)" by simp
  also have "fst \<dots> = fst (fetchTimes c pf this1 ?url init (length specs)) @
                        [Inl (NoMockFoundError msg)]"
    unfolding fetchTimes_add using last
    by (cases "fetchTimes c pf this1 ?url init (length specs)") simp
  finally have served:
    "fst (fetchTimes c pf this1 ?url init (Suc (length specs))) =
       map (\<lambda>s. construct pf (respond (methodName m) (mockData (Some s)))) specs @
       [Inl (NoMockFoundError msg)]"
    using firstN by (simp add: comp_def)
  have accepted:
    "fst (fetchTimes c pf this1 ?url init (Suc (length specs))) =
       map (\<lambda>s. Inr (respond (methodName m) (mockData (Some s)))) specs @
       [Inl (NoMockFoundError msg)]"
    if "\<forall>s \<in> set specs. pf (respond (methodName m) (mockData (Some s))) = None"
  proof -
    from that have
      "map (\<lambda>s. construct pf (respond (methodName m) (mockData (Some s)))) specs =
       map (\<lambda>s. Inr (respond (methodName m) (mockData (Some s)))) specs"
      by (simp add: construct_accepted)
    with served show ?thesis by simp
  qed
  have between: "pending (snd (fetchTimes c pf this1 ?url init i)) ?key = drop i ?es"
    if "i \<le> length specs" for i
    using run [of i] that by (simp add: assms(5))
  from reg served accepted between show ?thesis by blast
qed

theorem once_mocks_served_in_order_witness:
  "\<exists>this1 msg.
     registerAll Part000 (newFetchMock (Some ''https://api.example.com/'')) GET (JStr ''/data'')
       [Some \<lparr> data = JObj [(''attempt'', JNum 1)], status = None, headers = None,
                statusText = None, once = Some True \<rparr>,
        Some \<lparr> data = JStr ''second'', status = Some 404, headers = None,
                statusText = None, once = Some True \<rparr>] = (Inr (), this1) \<and>
     fst (fetchTimes Part000 rangeChecked this1 ''https://api.example.com/data''
            (Some \<lparr> method' = Some ''get'' \<rparr>) 3) =
       [Inr (ResponseJson (JObj [(''attempt'', JNum 1)])
               \<lparr> resStatus = 200, resHeaders = Map.empty, resStatusText = ''OK'' \<rparr>),
        Inr (NewResponse (Some ''second'')
               \<lparr> resStatus = 404, resHeaders = [''Content-Type'' \<mapsto> ''text/plain''],
                 resStatusText = ''OK'' \<rparr>),
        Inl (NoMockFoundError msg)]"
proof -
  let ?reg = "newFetchMock (Some ''https://api.example.com/'')"
  let ?s1 = "\<lparr> data = JObj [(''attempt'', JNum 1)], status = None, headers = None,
                statusText = None, once = Some True \<rparr>"
  let ?s2 = "\<lparr> data = JStr ''second'', status = Some 404, headers = None,
                statusText = None, once = Some True \<rparr>"
  let ?init = "Some \<lparr> method' = Some ''get'' \<rparr>"
  have url: "fullUrlOf Part000 ?reg ''/data'' = ''https://api.example.com/data''"
    by (simp add: fullUrlOf_def run_defs)
  have h1: "reachable Part000 ?reg" by (rule reach_new)
  have h2: "validateUrl (JStr ''/data'') = None" by (simp add: run_defs)
  have h3: "map_of (mocks ?reg) (getKey (methodName GET) (fullUrlOf Part000 ?reg ''/data'')) = None"
    by (simp add: newFetchMock_def)
  have h4: "\<forall>s \<in> set [?s1, ?s2]. once s = Some True" by simp
  have h5: "methodStrOf Part000 ?init = methodName GET"
    by (simp add: methodStrOf_def initMethod_def run_defs)
  have r1: "respond ''GET'' (mockData (Some ?s1)) =
              ResponseJson (JObj [(''attempt'', JNum 1)])
                \<lparr> resStatus = 200, resHeaders = Map.empty, resStatusText = ''OK'' \<rparr>"
    by (simp add: respond_def mockData_def)
  have r2: "respond ''GET'' (mockData (Some ?s2)) =
              NewResponse (Some ''second'')
                \<lparr> resStatus = 404, resHeaders = [''Content-Type'' \<mapsto> ''text/plain''],
                  resStatusText = ''OK'' \<rparr>"
    by (simp add: respond_def mockData_def)
  have ok: "\<forall>s \<in> set [?s1, ?s2]. rangeChecked (respond (methodName GET) (mockData (Some s))) = None"
    by (simp add: r1 r2 statusInRange_def)
  from once_mocks_served_in_order [OF h1 h2 h3 h4 h5, of rangeChecked] ok
  obtain this1 msg where
    "registerAll Part000 ?reg GET (JStr ''/data'') (map Some [?s1, ?s2]) = (Inr (), this1)" and
    "fst (fetchTimes Part000 rangeChecked this1 (fullUrlOf Part000 ?reg ''/data'') ?init
            (Suc (length [?s1, ?s2]))) =
       map (\<lambda>s. Inr (respond (methodName GET) (mockData (Some s)))) [?s1, ?s2] @
       [Inl (NoMockFoundError msg)]"
    by blast
  then have
    "registerAll Part000 ?reg GET (JStr ''/data'') [Some ?s1, Some ?s2] = (Inr (), this1) \<and>
     fst (fetchTimes Part000 rangeChecked this1 ''https://api.example.com/data'' ?init 3) =
       [Inr (ResponseJson (JObj [(''attempt'', JNum 1)])
               \<lparr> resStatus = 200, resHeaders = Map.empty, resStatusText = ''OK'' \<rparr>),
        Inr (NewResponse (Some ''second'')
               \<lparr> resStatus = 404, resHeaders = [''Content-Type'' \<mapsto> ''text/plain''],
                 resStatusText = ''OK'' \<rparr>),
        Inl (NoMockFoundError msg)]"
    unfolding url by (simp add: r1 r2 numeral_3_eq_3)
  then show ?thesis by blast
qed

subsection \<open>The message when no mock is found\<close>

text \<open>
  C4. When the resolved method is supported and the key has no active entry, the
  message is \<^verbatim>\<open>No mock found for [METHOD] URL\<close> alone if both tables are empty, and
  otherwise continues with \<^verbatim>\<open>. Available mocks: \<close> and the keys of the active table
  followed by the keys of the queue table, each in insertion order, joined by a comma
  and a space, nothing removed.
\<close>

theorem no_mock_found_message:
  assumes "reachable c this"
      and "validateMethod (methodStrOf c init)"
      and "map_of (mocks this) (getKey (methodStrOf c init) url) = None"
  shows "fetchMockOf c pf this url init =
           (Inl (NoMockFoundError
                  (''No mock found for ['' @ methodStrOf c init @ ''] '' @ url @
                   (if mocks this = [] \<and> mockQueue this = [] then []
                    else ''. Available mocks: '' @
                         join (map fst (mocks this) @ map fst (mockQueue this)) '', ''))),
            this)"
proof -
  let ?keys = "map fst (mocks this) @ map fst (mockQueue this)"
  have "keysNonEmpty this"
    using assms(1) by (auto dest: reachable_wellFormed simp: wellFormed_def)
  then have all: "list_all (\<lambda>k. k \<noteq> []) ?keys"
    by (simp add: keysNonEmpty_def)
  have "join ?keys '', '' \<noteq> [] \<longleftrightarrow> \<not> (mocks this = [] \<and> mockQueue this = [])"
  proof (cases "?keys = []")
    case True
    then show ?thesis by simp
  next
    case False
    from False all have "join ?keys '', '' \<noteq> []" by (rule join_nonempty)
    with False show ?thesis by simp
  qed
  then show ?thesis
    using assms(2,3) by (simp add: fetchMockOf_dispatch dispatch_nomock getKey_def)
qed

theorem no_mock_found_message_witness:
  "fetchMockOf IndexTs rangeChecked (newFetchMock None) ''https://api.example.com/unknown'' None =
     (Inl (NoMockFoundError ''No mock found for [GET] https://api.example.com/unknown''),
      newFetchMock None) \<and>
   fst (fetchMockOf Part000 rangeChecked
          (snd (mockRequestOf Part000
             (snd (mockRequestOf Part000
                (snd (mockRequestOf Part000 (newFetchMock None) GET (JStr ''/a'') None))
                POST (JStr ''/b'') None))
             GET (JStr ''/a'') None))
          ''/missing'' (Some \<lparr> method' = Some ''get'' \<rparr>)) =
     Inl (NoMockFoundError
            ''No mock found for [GET] /missing. Available mocks: [GET] /a, [POST] /b, [GET] /a'')"
proof -
  let ?s = "snd (mockRequestOf Part000
             (snd (mockRequestOf Part000
                (snd (mockRequestOf Part000 (newFetchMock None) GET (JStr ''/a'') None))
                POST (JStr ''/b'') None))
             GET (JStr ''/a'') None)"
  let ?init = "Some \<lparr> method' = Some ''get'' \<rparr>"
  have r0: "reachable IndexTs (newFetchMock None)" by (rule reach_new)
  have v0: "validateMethod (methodStrOf IndexTs None)"
    by (simp add: methodStrOf_def initMethod_def run_defs)
  have n0: "map_of (mocks (newFetchMock None))
              (getKey (methodStrOf IndexTs None) ''https://api.example.com/unknown'') = None"
    by (simp add: newFetchMock_def)
  have r1: "reachable Part000 ?s" by (intro reach_register reach_new)
  have m1: "methodStrOf Part000 ?init = ''GET''"
    by (simp add: methodStrOf_def initMethod_def run_defs)
  have v1: "validateMethod (methodStrOf Part000 ?init)"
    unfolding m1 by (simp add: run_defs)
  have s1: "mocks ?s = [(''[GET] /a'', mockData None), (''[POST] /b'', mockData None)]"
    by (simp add: run_defs)
  have s2: "mockQueue ?s = [(''[GET] /a'', [mockData None])]"
    by (simp add: run_defs)
  have n1: "map_of (mocks ?s) (getKey (methodStrOf Part000 ?init) ''/missing'') = None"
    unfolding m1 s1 by (simp add: getKey_def)
  have m0: "methodStrOf IndexTs None = ''GET''"
    by (simp add: methodStrOf_def initMethod_def DEFAULT_METHOD_def)
  have e0: "mocks (newFetchMock None) = [] \<and> mockQueue (newFetchMock None) = []"
    by (simp add: newFetchMock_def)
  have A: "fetchMockOf IndexTs rangeChecked (newFetchMock None) ''https://api.example.com/unknown'' None =
     (Inl (NoMockFoundError ''No mock found for [GET] https://api.example.com/unknown''),
      newFetchMock None)"
    using no_mock_found_message [OF r0 v0 n0] unfolding m0 by (simp add: e0)
  have B: "fst (fetchMockOf Part000 rangeChecked ?s ''/missing'' ?init) =
     Inl (NoMockFoundError
            ''No mock found for [GET] /missing. Available mocks: [GET] /a, [POST] /b, [GET] /a'')"
    using no_mock_found_message [OF r1 v1 n1] unfolding m1 s1 s2 by simp
  from A B show ?thesis by simp
qed

subsection \<open>The response of a dispatch\<close>

text \<open>
  C5. The response of a successful dispatch is built from the matched entry, the
  first case that applies: for the method \<^verbatim>\<open>HEAD\<close> a response with a null body,
  whatever \<^verbatim>\<open>data\<close> is; else a null body when \<^verbatim>\<open>data\<close> is absent; else, when
  \<^verbatim>\<open>data\<close> is a string, that text as the body, with the header
  \<^verbatim>\<open>Content-Type: text/plain\<close> unless the entry's own headers give that key; else
  the JSON response of \<^verbatim>\<open>data\<close>. Status, headers and status text are the entry's,
  with the defaults \<open>200\<close>, no headers and \<^verbatim>\<open>OK\<close>.
\<close>

theorem response_priority:
  assumes "fetchMockOf c pf this url init = (Inr r, this')"
  shows "\<exists>e. map_of (mocks this) (getKey (methodStrOf c init) url) = Some e \<and>
           (let st = (case status e of None \<Rightarrow> 200 | Some s \<Rightarrow> s);
                hs = (case headers e of None \<Rightarrow> Map.empty | Some h \<Rightarrow> h);
                tx = (case statusText e of None \<Rightarrow> ''OK'' | Some t \<Rightarrow> t);
                plain = \<lparr> resStatus = st, resHeaders = hs, resStatusText = tx \<rparr>
            in
              (methodStrOf c init = ''HEAD'' \<longrightarrow> r = NewResponse None plain) \<and>
              (methodStrOf c init \<noteq> ''HEAD'' \<and> data e = JUndefined \<longrightarrow>
                 r = NewResponse None plain) \<and>
              (\<forall>body. methodStrOf c init \<noteq> ''HEAD'' \<and> data e = JStr body \<longrightarrow>
                 r = NewResponse (Some body)
                       \<lparr> resStatus = st,
                         resHeaders =
                           (\<lambda>k. case hs k of
                                  Some v \<Rightarrow> Some v
                                | None \<Rightarrow> if k = ''Content-Type'' then Some ''text/plain''
                                          else None),
                         resStatusText = tx \<rparr>) \<and>
              (methodStrOf c init \<noteq> ''HEAD'' \<and> data e \<noteq> JUndefined \<and> \<not> isString (data e) \<longrightarrow>
                 r = ResponseJson (data e) plain))"
proof -
  from fetchMockOf_success [OF assms] obtain e
    where e: "map_of (mocks this) (getKey (methodStrOf c init) url) = Some e"
      and r: "r = respond (methodStrOf c init) e" by blast
  have h: "[''Content-Type'' \<mapsto> ''text/plain''] ++ hs =
             (\<lambda>k. case hs k of
                    Some v \<Rightarrow> Some v
                  | None \<Rightarrow> if k = ''Content-Type'' then Some ''text/plain'' else None)"
    for hs :: "string \<rightharpoonup> string"
    by (rule ext) (rule text_plain_underneath)
  show ?thesis
  proof (intro exI conjI)
    show "map_of (mocks this) (getKey (methodStrOf c init) url) = Some e" by (rule e)
    show "let st = (case status e of None \<Rightarrow> 200 | Some s \<Rightarrow> s);
                hs = (case headers e of None \<Rightarrow> Map.empty | Some h \<Rightarrow> h);
                tx = (case statusText e of None \<Rightarrow> ''OK'' | Some t \<Rightarrow> t);
                plain = \<lparr> resStatus = st, resHeaders = hs, resStatusText = tx \<rparr>
            in
              (methodStrOf c init = ''HEAD'' \<longrightarrow> r = NewResponse None plain) \<and>
              (methodStrOf c init \<noteq> ''HEAD'' \<and> data e = JUndefined \<longrightarrow>
                 r = NewResponse None plain) \<and>
              (\<forall>body. methodStrOf c init \<noteq> ''HEAD'' \<and> data e = JStr body \<longrightarrow>
                 r = NewResponse (Some body)
                       \<lparr> resStatus = st,
                         resHeaders =
                           (\<lambda>k. case hs k of
                                  Some v \<Rightarrow> Some v
                                | None \<Rightarrow> if k = ''Content-Type'' then Some ''text/plain''
                                          else None),
                         resStatusText = tx \<rparr>) \<and>
              (methodStrOf c init \<noteq> ''HEAD'' \<and> data e \<noteq> JUndefined \<and> \<not> isString (data e) \<longrightarrow>
                 r = ResponseJson (data e) plain)"
      unfolding r Let_def respond_def
      by (cases "data e") (simp_all add: h)
  qed
qed

theorem response_priority_witness:
  "fst (fetchMockOf IndexTs rangeChecked
          (snd (mockRequestOf IndexTs (newFetchMock None) HEAD (JStr ''/x'')
             (Some \<lparr> data = JObj [(''a'', JNum 1)], status = Some 201, headers = None,
                      statusText = None, once = None \<rparr>)))
          ''/x'' (Some \<lparr> method' = Some ''HEAD'' \<rparr>)) =
     Inr (NewResponse None
            \<lparr> resStatus = 201, resHeaders = Map.empty, resStatusText = ''OK'' \<rparr>) \<and>
   (\<exists>ini.
      fst (fetchMockOf Part000 rangeChecked
             (snd (mockRequestOf Part000 (newFetchMock None) GET (JStr ''/health'')
                (Some \<lparr> data = JStr ''OK'', status = None,
                         headers = Some [''Content-Type'' \<mapsto> ''text/html''],
                         statusText = None, once = None \<rparr>)))
             ''/health'' None) = Inr (NewResponse (Some ''OK'') ini) \<and>
      resHeaders ini ''Content-Type'' = Some ''text/html'' \<and> resStatus ini = 200)"
proof -
  let ?o1 = "Some \<lparr> data = JObj [(''a'', JNum 1)], status = Some 201, headers = None,
                      statusText = None, once = None \<rparr>"
  let ?s1 = "snd (mockRequestOf IndexTs (newFetchMock None) HEAD (JStr ''/x'') ?o1)"
  let ?i1 = "Some \<lparr> method' = Some ''HEAD'' \<rparr>"
  let ?o2 = "Some \<lparr> data = JStr ''OK'', status = None,
                         headers = Some [''Content-Type'' \<mapsto> ''text/html''],
                         statusText = None, once = None \<rparr>"
  let ?s2 = "snd (mockRequestOf Part000 (newFetchMock None) GET (JStr ''/health'') ?o2)"
  have m1: "methodStrOf IndexTs ?i1 = ''HEAD''"
    by (simp add: methodStrOf_def initMethod_def)
  have m2: "methodStrOf Part000 None = ''GET''"
    by (simp add: methodStrOf_def initMethod_def run_defs)
  have a1: "mocks ?s1 = [(''[HEAD] /x'', mockData ?o1)]" by (simp add: run_defs)
  have a2: "mocks ?s2 = [(''[GET] /health'', mockData ?o2)]" by (simp add: run_defs)
  have f1: "fetchMockOf IndexTs rangeChecked ?s1 ''/x'' ?i1 =
              (Inr (respond ''HEAD'' (mockData ?o1)), snd (fetchMockOf IndexTs rangeChecked ?s1 ''/x'' ?i1))"
    by (simp add: fetchMockOf_dispatch m1 dispatch_cases validateMethod_def validMethods_def a1
          getKey_def construct_def respond_def mockData_def statusInRange_def)
  have f2: "fetchMockOf Part000 rangeChecked ?s2 ''/health'' None =
              (Inr (respond ''GET'' (mockData ?o2)), snd (fetchMockOf Part000 rangeChecked ?s2 ''/health'' None))"
    by (simp add: fetchMockOf_dispatch m2 dispatch_cases validateMethod_def validMethods_def a2
          getKey_def construct_def respond_def mockData_def statusInRange_def)
  have r1: "respond ''HEAD'' (mockData ?o1) =
              NewResponse None \<lparr> resStatus = 201, resHeaders = Map.empty, resStatusText = ''OK'' \<rparr>"
    using response_priority [OF f1] by (simp add: m1 a1 getKey_def mockData_def)
  have r2: "\<exists>ini. respond ''GET'' (mockData ?o2) = NewResponse (Some ''OK'') ini \<and>
              resHeaders ini ''Content-Type'' = Some ''text/html'' \<and> resStatus ini = 200"
    using response_priority [OF f2] by (simp add: m2 a2 getKey_def mockData_def)
  from f1 r1 have 1: "fst (fetchMockOf IndexTs rangeChecked ?s1 ''/x'' ?i1) =
     Inr (NewResponse None \<lparr> resStatus = 201, resHeaders = Map.empty, resStatusText = ''OK'' \<rparr>)"
    by (metis fst_conv)
  from f2 r2 have 2: "\<exists>ini. fst (fetchMockOf Part000 rangeChecked ?s2 ''/health'' None) =
       Inr (NewResponse (Some ''OK'') ini) \<and>
      resHeaders ini ''Content-Type'' = Some ''text/html'' \<and> resStatus ini = 200"
    by (metis fst_conv)
  from 1 2 show ?thesis by blast
qed

subsection \<open>Queues are never empty\<close>

text \<open>
  C6. A queue that exists is not empty: this holds of every registry a test can
  reach, and registration, dispatch and reset each keep it (the constructor and
  reset leave no queue at all). A registration gives a key a queue only by pushing
  the new entry, and the dispatch that promotes the last queued entry removes the
  key from the queue table.
\<close>

theorem queues_never_empty:
  "(reachable c this \<longrightarrow> queuesNonEmpty this) \<and>
   queuesNonEmpty (newFetchMock b) \<and>
   queuesNonEmpty (reset this) \<and>
   (queuesNonEmpty this \<longrightarrow>
      map_of (mockQueue this) key \<noteq> Some [] \<and>
      queuesNonEmpty (snd (mockRequestOf c this m url opts)) \<and>
      queuesNonEmpty (snd (fetchMockOf c pf this u init))) \<and>
   (map_of (mockQueue this) key = None \<and>
    map_of (mockQueue (snd (mockRequestOf c this m url opts))) key = Some q \<longrightarrow>
      q = [mockData opts]) \<and>
   (fetchMockOf c pf this u init = (Inr r, this') \<and>
    map_of (mocks this) (getKey (methodStrOf c init) u) = Some e \<and> once e = Some True \<and>
    map_of (mockQueue this) (getKey (methodStrOf c init) u) = Some [n] \<longrightarrow>
      map_of (mockQueue this') (getKey (methodStrOf c init) u) = None)"
proof -
  have 1: "reachable c this \<longrightarrow> queuesNonEmpty this"
    by (auto dest: reachable_wellFormed simp: wellFormed_def)
  have 2: "queuesNonEmpty (newFetchMock b)" "queuesNonEmpty (reset this)"
    by (simp_all add: queuesNonEmpty_def newFetchMock_def reset_def)
  have 3: "map_of (mockQueue this) key \<noteq> Some []" if "queuesNonEmpty this"
  proof
    assume "map_of (mockQueue this) key = Some []"
    then have "(key, []) \<in> set (mockQueue this)" by (rule map_of_SomeD)
    with that show False by (auto simp: queuesNonEmpty_def list_all_iff)
  qed
  show ?thesis
    using 1 2 3 queuesNonEmpty_mockRequestOf [of this c m url opts]
      queuesNonEmpty_fetchMockOf [of this c pf u init]
      queue_created_by_push [of this key c m url opts q]
      emptied_queue_removed [of c pf this u init r this' e n]
    by blast
qed

theorem queues_never_empty_witness:
  "queuesNonEmpty
     (snd (mockRequestOf IndexTs
        (snd (mockRequestOf IndexTs (newFetchMock None) GET (JStr ''/a'')
           (Some \<lparr> data = JStr ''first'', status = None, headers = None, statusText = None,
                    once = Some True \<rparr>)))
        GET (JStr ''/a'') None)) \<and>
   mockQueue
     (snd (mockRequestOf IndexTs
        (snd (mockRequestOf IndexTs (newFetchMock None) GET (JStr ''/a'')
           (Some \<lparr> data = JStr ''first'', status = None, headers = None, statusText = None,
                    once = Some True \<rparr>)))
        GET (JStr ''/a'') None)) = [(''[GET] /a'', [mockData None])] \<and>
   map_of (mockQueue
     (snd (fetchMockOf IndexTs rangeChecked
        (snd (mockRequestOf IndexTs
           (snd (mockRequestOf IndexTs (newFetchMock None) GET (JStr ''/a'')
              (Some \<lparr> data = JStr ''first'', status = None, headers = None, statusText = None,
                       once = Some True \<rparr>)))
           GET (JStr ''/a'') None))
        ''/a'' None))) ''[GET] /a'' = None"
proof -
  let ?o = "Some \<lparr> data = JStr ''first'', status = None, headers = None, statusText = None,
                    once = Some True \<rparr>"
  let ?s1 = "snd (mockRequestOf IndexTs (newFetchMock None) GET (JStr ''/a'') ?o)"
  let ?s2 = "snd (mockRequestOf IndexTs ?s1 GET (JStr ''/a'') None)"
  let ?s3 = "snd (fetchMockOf IndexTs rangeChecked ?s2 ''/a'' None)"
  have r: "reachable IndexTs ?s2" by (intro reach_register reach_new)
  have m: "methodStrOf IndexTs None = ''GET''"
    by (simp add: methodStrOf_def initMethod_def DEFAULT_METHOD_def)
  have k: "getKey ''GET'' ''/a'' = ''[GET] /a''" by (simp add: getKey_def)
  have a: "mocks ?s2 = [(''[GET] /a'', mockData ?o)]" by (simp add: run_defs)
  have q: "mockQueue ?s2 = [(''[GET] /a'', [mockData None])]" by (simp add: run_defs)
  have f: "fetchMockOf IndexTs rangeChecked ?s2 ''/a'' None = (Inr (respond ''GET'' (mockData ?o)), ?s3)"
    by (simp add: fetchMockOf_dispatch m dispatch_cases validateMethod_def validMethods_def a k
          construct_def respond_def mockData_def statusInRange_def)
  note t = queues_never_empty [of IndexTs ?s2 None "''[GET] /a''" GET "JStr ''/a''" None
      rangeChecked "''/a''" None "[mockData None]" "respond ''GET'' (mockData ?o)" ?s3 "mockData ?o"
      "mockData None"]
  from t r have 1: "queuesNonEmpty ?s2" by blast
  have "map_of (mockQueue ?s3) (getKey (methodStrOf IndexTs None) ''/a'') = None"
    using t f by (simp add: m k a q mockData_def)
  then have 2: "map_of (mockQueue ?s3) ''[GET] /a'' = None" by (simp add: m k)
  from 1 q 2 show ?thesis by simp
qed

subsection \<open>The flag of a used entry\<close>

text \<open>
  C7. In every registry a test can reach: a new entry is stored with \<^verbatim>\<open>isUsed\<close>
  false, and the entries still queued are all unused. A registration leaves every
  waiting entry as it is and at most appends the new one. A dispatch that matches an
  entry (every dispatch that returns is one; so is one whose response the platform
  refuses to construct) changes the entries of its own key only: the matched entry is
  the first one waiting; a \<^verbatim>\<open>once\<close> entry is removed, any other stays with
  \<^verbatim>\<open>isUsed\<close> true. A dispatch that matches nothing, which throws the
  unsupported-method or the no-mock-found error, and a verification leave the
  registry as it is. So an active entry that is used is still there, unchanged, after
  any registration or dispatch; only \<^verbatim>\<open>reset\<close>, which empties both tables, removes
  it.
\<close>

theorem isUsed_set_on_match_and_kept:
  assumes "reachable c this"
  shows "\<not> isUsed (mockData opts) \<and>
         (\<forall>k q. map_of (mockQueue this) k = Some q \<longrightarrow> list_all (\<lambda>e. \<not> isUsed e) q) \<and>
         (\<forall>k. pending (snd (mockRequestOf c this m url opts)) k = pending this k \<or>
              pending (snd (mockRequestOf c this m url opts)) k =
                pending this k @ [mockData opts]) \<and>
         (\<forall>r. fst (fetchMockOf c pf this u init) = Inr r \<longrightarrow>
            validateMethod (methodStrOf c init) \<and>
            (\<exists>e. map_of (mocks this) (getKey (methodStrOf c init) u) = Some e)) \<and>
         (\<forall>e. validateMethod (methodStrOf c init) \<and>
              map_of (mocks this) (getKey (methodStrOf c init) u) = Some e \<longrightarrow>
            (\<exists>rest.
               pending this (getKey (methodStrOf c init) u) = e # rest \<and>
               pending (snd (fetchMockOf c pf this u init)) (getKey (methodStrOf c init) u) =
                 (if once e = Some True then rest else e\<lparr> isUsed := True \<rparr> # rest) \<and>
               (\<forall>k. k \<noteq> getKey (methodStrOf c init) u \<longrightarrow>
                    pending (snd (fetchMockOf c pf this u init)) k = pending this k))) \<and>
         (\<not> validateMethod (methodStrOf c init) \<or>
          map_of (mocks this) (getKey (methodStrOf c init) u) = None \<longrightarrow>
            snd (fetchMockOf c pf this u init) = this \<and>
            ((\<exists>msg. fst (fetchMockOf c pf this u init) = Inl (UnsupportedMethodError msg)) \<or>
             (\<exists>msg. fst (fetchMockOf c pf this u init) = Inl (NoMockFoundError msg)))) \<and>
         snd (assertAllMocksUsed this) = this \<and>
         (\<forall>k e. map_of (mocks this) k = Some e \<and> isUsed e \<longrightarrow>
            map_of (mocks (snd (mockRequestOf c this m url opts))) k = Some e \<and>
            map_of (mocks (snd (fetchMockOf c pf this u init))) k = Some e) \<and>
         mocks (reset this) = [] \<and> mockQueue (reset this) = []"
proof -
  have wf: "wellFormed this" using assms by (rule reachable_wellFormed)
  have 1: "\<not> isUsed (mockData opts)" by (rule isUsed_mockData)
  have 2: "\<forall>k q. map_of (mockQueue this) k = Some q \<longrightarrow> list_all (\<lambda>e. \<not> isUsed e) q"
    using queued_unused [OF wf] by blast
  have 3: "\<forall>k. pending (snd (mockRequestOf c this m url opts)) k = pending this k \<or>
              pending (snd (mockRequestOf c this m url opts)) k =
                pending this k @ [mockData opts]"
    using pending_after_register [OF wf] by blast
  have 4: "\<forall>r. fst (fetchMockOf c pf this u init) = Inr r \<longrightarrow>
            validateMethod (methodStrOf c init) \<and>
            (\<exists>e. map_of (mocks this) (getKey (methodStrOf c init) u) = Some e)"
    using returned_dispatch_matched by blast
  have 5: "\<forall>e. validateMethod (methodStrOf c init) \<and>
              map_of (mocks this) (getKey (methodStrOf c init) u) = Some e \<longrightarrow>
            (\<exists>rest.
               pending this (getKey (methodStrOf c init) u) = e # rest \<and>
               pending (snd (fetchMockOf c pf this u init)) (getKey (methodStrOf c init) u) =
                 (if once e = Some True then rest else e\<lparr> isUsed := True \<rparr> # rest) \<and>
               (\<forall>k. k \<noteq> getKey (methodStrOf c init) u \<longrightarrow>
                    pending (snd (fetchMockOf c pf this u init)) k = pending this k))"
    using pending_after_match by blast
  have 6: "\<not> validateMethod (methodStrOf c init) \<or>
          map_of (mocks this) (getKey (methodStrOf c init) u) = None \<longrightarrow>
            snd (fetchMockOf c pf this u init) = this \<and>
            ((\<exists>msg. fst (fetchMockOf c pf this u init) = Inl (UnsupportedMethodError msg)) \<or>
             (\<exists>msg. fst (fetchMockOf c pf this u init) = Inl (NoMockFoundError msg)))"
    using unmatched_dispatch_state [of c init this u pf]
      unmatched_dispatch_thrown [of c init this u pf] by blast
  have 7: "snd (assertAllMocksUsed this) = this" by (rule assertAllMocksUsed_state)
  have 8: "\<forall>k e. map_of (mocks this) k = Some e \<and> isUsed e \<longrightarrow>
            map_of (mocks (snd (mockRequestOf c this m url opts))) k = Some e \<and>
            map_of (mocks (snd (fetchMockOf c pf this u init))) k = Some e"
    using active_kept_by_register used_kept_by_dispatch [OF wf]
    by (simp add: fetchMockOf_dispatch)
  have 9: "mocks (reset this) = [] \<and> mockQueue (reset this) = []"
    by (simp add: reset_def)
  from 1 2 3 4 5 6 7 8 9 show ?thesis by (intro conjI) simp_all
qed

theorem isUsed_set_on_match_and_kept_witness:
  "map_of (mocks (snd (fetchMockOf IndexTs rangeChecked
      (snd (mockRequestOf IndexTs (newFetchMock None) GET (JStr ''/a'') None)) ''/a'' None)))
     ''[GET] /a'' = Some ((mockData None)\<lparr> isUsed := True \<rparr>) \<and>
   map_of (mocks (snd (fetchMockOf IndexTs rangeChecked
      (snd (fetchMockOf IndexTs rangeChecked
         (snd (mockRequestOf IndexTs (newFetchMock None) GET (JStr ''/a'') None)) ''/a'' None))
      ''/a'' None)))
     ''[GET] /a'' = Some ((mockData None)\<lparr> isUsed := True \<rparr>) \<and>
   map_of (mocks (snd (mockRequestOf IndexTs
      (snd (fetchMockOf IndexTs rangeChecked
         (snd (mockRequestOf IndexTs (newFetchMock None) GET (JStr ''/a'') None)) ''/a'' None))
      GET (JStr ''/a'') None)))
     ''[GET] /a'' = Some ((mockData None)\<lparr> isUsed := True \<rparr>)"
proof -
  let ?s0 = "snd (mockRequestOf IndexTs (newFetchMock None) GET (JStr ''/a'') None)"
  let ?s1 = "snd (fetchMockOf IndexTs rangeChecked ?s0 ''/a'' None)"
  let ?e = "(mockData None)\<lparr> isUsed := True \<rparr>"
  have r: "reachable IndexTs ?s1" by (intro reach_fetch reach_register reach_new)
  have a: "map_of (mocks ?s1) ''[GET] /a'' = Some ?e" by (simp add: run_defs)
  have u: "isUsed ?e" by simp
  from isUsed_set_on_match_and_kept [OF r, of None GET "JStr ''/a''" rangeChecked "''/a''" None] a u
  have "map_of (mocks (snd (mockRequestOf IndexTs ?s1 GET (JStr ''/a'') None))) ''[GET] /a'' = Some ?e \<and>
        map_of (mocks (snd (fetchMockOf IndexTs rangeChecked ?s1 ''/a'' None))) ''[GET] /a'' = Some ?e"
    by blast
  with a show ?thesis by simp
qed

subsection \<open>Validation of a registered URL\<close>

text \<open>
  C8. A registration throws exactly when the URL is not a string, is the empty
  string, or starts with none of \<^verbatim>\<open>http://\<close>, \<^verbatim>\<open>https://\<close> and \<^verbatim>\<open>/\<close>. The message
  names the method and the rule broken, and the registry is then the one before the
  call. In every other case the call returns and throws nothing.
\<close>

theorem registration_validates_url:
  "(\<not> isString url \<or> url = JStr [] \<longrightarrow>
      mockRequestOf c this m url opts =
        (Inl (ValidationError
               (''Invalid URL for '' @ methodName m @ '' mock: URL must be a non-empty string'')),
         this)) \<and>
   (url = JStr u \<and> u \<noteq> [] \<and>
    \<not> startsWith u ''http://'' \<and> \<not> startsWith u ''https://'' \<and> \<not> startsWith u ''/'' \<longrightarrow>
      mockRequestOf c this m url opts =
        (Inl (ValidationError
               (''Invalid URL for '' @ methodName m @
                '' mock: URL must start with http://, https://, or /'')),
         this)) \<and>
   (url = JStr u \<and>
    (startsWith u ''http://'' \<or> startsWith u ''https://'' \<or> startsWith u ''/'') \<longrightarrow>
      fst (mockRequestOf c this m url opts) = Inr ()) \<and>
   ((\<exists>err. fst (mockRequestOf c this m url opts) = Inl err) \<longleftrightarrow>
      \<not> isString url \<or> url = JStr [] \<or>
      (\<exists>s. url = JStr s \<and>
           \<not> startsWith s ''http://'' \<and> \<not> startsWith s ''https://'' \<and> \<not> startsWith s ''/''))"
proof -
  have a: "validateUrl url = Some ''URL must be a non-empty string''"
    if "\<not> isString url \<or> url = JStr []"
    using that by (cases url) (auto simp: validateUrl_def)
  have b: "validateUrl url = Some ''URL must start with http://, https://, or /''"
    if "url = JStr u" "u \<noteq> []" "\<not> startsWith u ''http://''" "\<not> startsWith u ''https://''"
       "\<not> startsWith u ''/''"
    using that by (simp add: validateUrl_def)
  have c: "validateUrl url = None"
    if "url = JStr u" "startsWith u ''http://'' \<or> startsWith u ''https://'' \<or> startsWith u ''/''"
    using that by (auto simp: validateUrl_None_iff)
  have d: "(\<exists>err. fst (mockRequestOf c this m url opts) = Inl err) \<longleftrightarrow> validateUrl url \<noteq> None"
  proof (cases "validateUrl url")
    case None
    then obtain s where "url = JStr s" by (auto simp: validateUrl_None_iff)
    with None show ?thesis by (simp add: mockRequestOf_valid)
  next
    case (Some msg)
    then show ?thesis by (simp add: mockRequestOf_invalid)
  qed
  have e: "validateUrl url \<noteq> None \<longleftrightarrow>
      \<not> isString url \<or> url = JStr [] \<or>
      (\<exists>s. url = JStr s \<and>
           \<not> startsWith s ''http://'' \<and> \<not> startsWith s ''https://'' \<and> \<not> startsWith s ''/'')"
    by (cases url) (auto simp: validateUrl_def startsWith_def)
  show ?thesis
    using a b c d e
    by (auto simp: mockRequestOf_invalid mockRequestOf_valid)
qed

theorem registration_validates_url_witness:
  "mockRequestOf IndexTs (newFetchMock None) GET (JStr ''invalid-url'') None =
     (Inl (ValidationError
            ''Invalid URL for GET mock: URL must start with http://, https://, or /''),
      newFetchMock None) \<and>
   mockRequestOf Part000 (newFetchMock None) POST (JStr []) None =
     (Inl (ValidationError ''Invalid URL for POST mock: URL must be a non-empty string''),
      newFetchMock None) \<and>
   mockRequestOf Part000 (newFetchMock None) HEAD (JNum 5) None =
     (Inl (ValidationError ''Invalid URL for HEAD mock: URL must be a non-empty string''),
      newFetchMock None) \<and>
   fst (mockRequestOf IndexTs (newFetchMock None) PUT (JStr ''https://api.example.com/users/1'')
          None) = Inr ()"
proof -
  have 1: "mockRequestOf IndexTs (newFetchMock None) GET (JStr ''invalid-url'') None =
     (Inl (ValidationError
            ''Invalid URL for GET mock: URL must start with http://, https://, or /''),
      newFetchMock None)"
    using registration_validates_url
      [of "JStr ''invalid-url''" IndexTs "newFetchMock None" GET None "''invalid-url''"]
    by (simp add: startsWith_def)
  have 2: "mockRequestOf Part000 (newFetchMock None) POST (JStr []) None =
     (Inl (ValidationError ''Invalid URL for POST mock: URL must be a non-empty string''),
      newFetchMock None)"
    using registration_validates_url [of "JStr []" Part000 "newFetchMock None" POST None "[]"]
    by simp
  have 3: "mockRequestOf Part000 (newFetchMock None) HEAD (JNum 5) None =
     (Inl (ValidationError ''Invalid URL for HEAD mock: URL must be a non-empty string''),
      newFetchMock None)"
    using registration_validates_url [of "JNum 5" Part000 "newFetchMock None" HEAD None "[]"]
    by simp
  have 4: "fst (mockRequestOf IndexTs (newFetchMock None) PUT
                  (JStr ''https://api.example.com/users/1'') None) = Inr ()"
    using registration_validates_url
      [of "JStr ''https://api.example.com/users/1''" IndexTs "newFetchMock None" PUT None
          "''https://api.example.com/users/1''"]
    by (simp add: startsWith_def)
  from 1 2 3 4 show ?thesis by simp
qed

subsection \<open>Verification that all mocks were used\<close>

text \<open>
  C9. \<^verbatim>\<open>assertAllMocksUsed\<close> passes exactly when every entry of the active table and
  of every queue has \<^verbatim>\<open>isUsed\<close> true, and fails exactly when one of them has not; the
  failure names a key of the registry; the registry is left as it is. A \<^verbatim>\<open>once\<close>
  entry that a dispatch has matched is no longer among the entries visited: the
  entries before the dispatch are those after it and the matched one.
\<close>

theorem assertAllMocksUsed_checks_every_entry:
  "(fst (assertAllMocksUsed this) = Inr () \<longleftrightarrow> (\<forall>e \<in> set (allEntries this). isUsed e)) \<and>
   ((\<exists>err. fst (assertAllMocksUsed this) = Inl err) \<longleftrightarrow>
      (\<exists>e \<in> set (allEntries this). \<not> isUsed e)) \<and>
   (\<forall>err. fst (assertAllMocksUsed this) = Inl err \<longrightarrow>
      (\<exists>key \<in> set (map fst (mocks this) @ map fst (mockQueue this)).
         err = VerificationFailure (''Fetch mock '' @ key @ '' was not used''))) \<and>
   snd (assertAllMocksUsed this) = this \<and>
   (reachable c this \<and> fetchMockOf c pf this url init = (Inr r, this') \<and>
    map_of (mocks this) (getKey (methodStrOf c init) url) = Some e \<and> once e = Some True \<longrightarrow>
      add_mset e (mset (allEntries this')) = mset (allEntries this))"
proof -
  have 1: "fst (assertAllMocksUsed this) = Inr () \<longleftrightarrow> (\<forall>e \<in> set (allEntries this). isUsed e)"
    by (rule assertAllMocksUsed_passes)
  have "(\<exists>err. fst (assertAllMocksUsed this) = Inl err) \<longleftrightarrow> fst (assertAllMocksUsed this) \<noteq> Inr ()"
    by (cases "fst (assertAllMocksUsed this)") auto
  with 1 have 2: "(\<exists>err. fst (assertAllMocksUsed this) = Inl err) \<longleftrightarrow>
      (\<exists>e \<in> set (allEntries this). \<not> isUsed e)" by blast
  have 3: "\<forall>err. fst (assertAllMocksUsed this) = Inl err \<longrightarrow>
      (\<exists>key \<in> set (map fst (mocks this) @ map fst (mockQueue this)).
         err = VerificationFailure (''Fetch mock '' @ key @ '' was not used''))"
    using assertAllMocksUsed_fails [of this] by (simp add: notUsed_def)
  have 4: "snd (assertAllMocksUsed this) = this" by (rule assertAllMocksUsed_state)
  have 5: "add_mset e (mset (allEntries this')) = mset (allEntries this)"
    if r: "reachable c this" and f: "fetchMockOf c pf this url init = (Inr r, this')"
      and e: "map_of (mocks this) (getKey (methodStrOf c init) url) = Some e"
      and o: "once e = Some True"
  proof -
    from fetchMockOf_matched [OF f] e o
    have "this' = promoteNext this (getKey (methodStrOf c init) url)" by simp
    with entries_after_promoteNext [OF reachable_wellFormed [OF r] e] show ?thesis by simp
  qed
  from 1 2 3 4 5 show ?thesis by blast
qed

theorem assertAllMocksUsed_checks_every_entry_witness:
  "fst (assertAllMocksUsed
          (snd (mockRequestOf IndexTs (newFetchMock None) GET (JStr ''https://api.example.com/data'')
             (Some \<lparr> data = JStr ''test'', status = None, headers = None, statusText = None,
                      once = Some True \<rparr>)))) =
     Inl (VerificationFailure ''Fetch mock [GET] https://api.example.com/data was not used'') \<and>
   fst (assertAllMocksUsed
          (snd (fetchMockOf IndexTs rangeChecked
             (snd (mockRequestOf IndexTs (newFetchMock None) GET
                (JStr ''https://api.example.com/data'')
                (Some \<lparr> data = JStr ''test'', status = None, headers = None, statusText = None,
                         once = Some True \<rparr>)))
             ''https://api.example.com/data'' None))) = Inr ()"
proof -
  let ?o = "Some \<lparr> data = JStr ''test'', status = None, headers = None, statusText = None,
                      once = Some True \<rparr>"
  let ?s0 = "snd (mockRequestOf IndexTs (newFetchMock None) GET
                (JStr ''https://api.example.com/data'') ?o)"
  let ?s1 = "snd (fetchMockOf IndexTs rangeChecked ?s0 ''https://api.example.com/data'' None)"
  have e0: "allEntries ?s0 = [mockData ?o]" by (simp add: allEntries_def run_defs)
  have k0: "map fst (mocks ?s0) @ map fst (mockQueue ?s0) = [''[GET] https://api.example.com/data'']"
    by (simp add: run_defs)
  have e1: "allEntries ?s1 = []" by (simp add: allEntries_def run_defs)
  note t0 = assertAllMocksUsed_checks_every_entry [of ?s0]
  note t1 = assertAllMocksUsed_checks_every_entry [of ?s1]
  from t0 have "\<exists>err. fst (assertAllMocksUsed ?s0) = Inl err"
    unfolding e0 by (simp add: mockData_def)
  then obtain err where err: "fst (assertAllMocksUsed ?s0) = Inl err" by blast
  with t0 have "err = VerificationFailure ''Fetch mock [GET] https://api.example.com/data was not used''"
    unfolding k0 by simp
  with err have 1: "fst (assertAllMocksUsed ?s0) =
     Inl (VerificationFailure ''Fetch mock [GET] https://api.example.com/data was not used'')"
    by simp
  from t1 have 2: "fst (assertAllMocksUsed ?s1) = Inr ()"
    unfolding e1 by simp
  from 1 2 show ?thesis by simp
qed

subsection \<open>A failed dispatch changes nothing\<close>

text \<open>
  C10. A call of \<^verbatim>\<open>fetchMock\<close> that throws the unsupported-method error or the
  no-mock-found error leaves the registry as it was: the base URL, the active table
  and the queues (with every entry's \<^verbatim>\<open>isUsed\<close>) are the same record before and
  after. The first is thrown exactly for a method outside the supported set, the
  second exactly for a supported method whose key has no active entry. (An error of
  the platform's constructor is thrown after a match and is not one of the two.)
\<close>

theorem failed_dispatch_keeps_registry:
  assumes "fst (fetchMockOf c pf this url init) = Inl err"
      and "(\<exists>msg. err = UnsupportedMethodError msg) \<or> (\<exists>msg. err = NoMockFoundError msg)"
  shows "snd (fetchMockOf c pf this url init) = this \<and>
         ((\<exists>msg. err = UnsupportedMethodError msg) \<longleftrightarrow>
            \<not> validateMethod (methodStrOf c init)) \<and>
         ((\<exists>msg. err = NoMockFoundError msg) \<longleftrightarrow>
            validateMethod (methodStrOf c init) \<and>
            map_of (mocks this) (getKey (methodStrOf c init) url) = None)"
  using assms
  by (auto simp: fetchMockOf_dispatch dispatch_cases construct_Inl
        split: if_splits option.splits)

theorem failed_dispatch_keeps_registry_witness:
  "fst (fetchMockOf Part000 rangeChecked (snd (mockRequestOf Part000 (newFetchMock None) GET (JStr ''/status'') None))
          ''/status'' (Some \<lparr> method' = Some ''TRACE'' \<rparr>)) =
     Inl (UnsupportedMethodError
            ''Unsupported HTTP method: TRACE. Supported methods: GET, POST, PUT, DELETE, PATCH, HEAD, OPTIONS'') \<and>
   snd (fetchMockOf Part000 rangeChecked (snd (mockRequestOf Part000 (newFetchMock None) GET (JStr ''/status'') None))
          ''/status'' (Some \<lparr> method' = Some ''TRACE'' \<rparr>)) =
     snd (mockRequestOf Part000 (newFetchMock None) GET (JStr ''/status'') None) \<and>
   fst (fetchMockOf IndexTs rangeChecked (snd (mockRequestOf IndexTs (newFetchMock None) GET (JStr ''/status'') None))
          ''/missing'' None) =
     Inl (NoMockFoundError ''No mock found for [GET] /missing. Available mocks: [GET] /status'') \<and>
   snd (fetchMockOf IndexTs rangeChecked (snd (mockRequestOf IndexTs (newFetchMock None) GET (JStr ''/status'') None))
          ''/missing'' None) =
     snd (mockRequestOf IndexTs (newFetchMock None) GET (JStr ''/status'') None)"
proof -
  let ?p = "snd (mockRequestOf Part000 (newFetchMock None) GET (JStr ''/status'') None)"
  let ?i = "snd (mockRequestOf IndexTs (newFetchMock None) GET (JStr ''/status'') None)"
  have a: "fst (fetchMockOf Part000 rangeChecked ?p ''/status'' (Some \<lparr> method' = Some ''TRACE'' \<rparr>)) =
     Inl (UnsupportedMethodError
            ''Unsupported HTTP method: TRACE. Supported methods: GET, POST, PUT, DELETE, PATCH, HEAD, OPTIONS'')"
    by (simp add: run_defs)
  have b: "fst (fetchMockOf IndexTs rangeChecked ?i ''/missing'' None) =
     Inl (NoMockFoundError ''No mock found for [GET] /missing. Available mocks: [GET] /status'')"
    by (simp add: run_defs)
  from failed_dispatch_keeps_registry [OF a] failed_dispatch_keeps_registry [OF b] a b
  show ?thesis by simp
qed

end
